theory Spec2Isabelle
  imports Main "HOL-Library.Sublist"
begin

section \<open>Values shared by the handlers of server.js\<close>

text \<open>
  Timestamps are the results of \<^verbatim>\<open>Date.now()\<close>: integers (milliseconds). A handler runs
  to completion in the event loop, so a request is one step on the state, and every
  \<^verbatim>\<open>Date.now()\<close> of the step is the same parameter \<open>now\<close>. A POST does its rate check when
  the request arrives and the rest in the \<^verbatim>\<open>end\<close> callback of the body; the two are
  separate definitions here (the callbacks end in \<open>_end\<close>), and the request as an event
  runs one after the other: the limiter's buckets and the stores are disjoint, so
  what happens between the two does not change either.
  Identifiers, fingerprints, client addresses, bundles and ciphertexts
  are strings, as the data model of the relay types them. A string field of a request
  body is the empty string when the field is missing or falsy: the source tests each
  such field with \<^verbatim>\<open>!x\<close> (or \<^verbatim>\<open>x || "unknown"\<close>) before any other use, and treats every
  falsy value alike.
\<close>

text \<open>A JavaScript number that may be \<^verbatim>\<open>NaN\<close> (the result of \<^verbatim>\<open>new Date(x).getTime()\<close>).\<close>

datatype jsnum = Num int | NaN

text \<open>\<^verbatim>\<open>a > b\<close> where \<open>a\<close> is a timestamp: every comparison with \<^verbatim>\<open>NaN\<close> is false.\<close>

definition js_gt :: "int \<Rightarrow> jsnum \<Rightarrow> bool" where
  "js_gt a b = (case b of Num t \<Rightarrow> a > t | NaN \<Rightarrow> False)"

text \<open>
  The \<^verbatim>\<open>expiresAt\<close> field of an invite request, as the expression
  \<^verbatim>\<open>expiresAt ? new Date(expiresAt).getTime() : Date.now() + CHAT_INVITE_TTL_MS\<close> reads it:
  falsy or missing, a truthy value that \<^verbatim>\<open>new Date\<close> parses to a timestamp, or a truthy
  value that it does not parse (\<^verbatim>\<open>getTime()\<close> is then \<^verbatim>\<open>NaN\<close>).
\<close>

datatype expires_arg = NoExpiry | ParsesTo int | Unparseable

text \<open>Frames the server sends on a socket.\<close>

datatype frame =
    Presence string nat
  | RoomDestroyed string
  | Connected string
  | NewMessage string string string
  | TextFrame string
  | BinaryFrame "nat list"

text \<open>
  A WebSocket as the handlers see it: \<^verbatim>\<open>readyState\<close> (1 is OPEN, 2 CLOSING, 3 CLOSED) and
  the frames sent on it so far. \<^verbatim>\<open>send\<close> queues a frame on an open socket; on a socket that
  is CLOSING or CLOSED the library drops the frame (the sockets a server is handed are
  never CONNECTING). \<^verbatim>\<open>close()\<close> starts the closing handshake, which leaves an already
  closed socket as it is.
\<close>

record socket =
  readyState :: nat
  outbox :: "frame list"

definition ws_send :: "frame \<Rightarrow> socket \<Rightarrow> socket" where
  "ws_send f sk = (if readyState sk = 1 then sk\<lparr>outbox := outbox sk @ [f]\<rparr> else sk)"

definition ws_close :: "socket \<Rightarrow> socket" where
  "ws_close sk = (if readyState sk = 3 then sk else sk\<lparr>readyState := 2\<rparr>)"

text \<open>Response bodies, one constructor per JSON shape (or payload) the handlers write.\<close>

datatype body =
    ErrorBody string
  | UsedBody
  | IdBody string
  | CiphertextBody string
  | OctetStream "nat list"
  | InviteCreated string
  | InviteView string string bool "string option"
  | ClaimOk string
  | SuccessBody
  | DuplicateBody

type_synonym response = "nat \<times> body"

definition rate_limited :: response where
  "rate_limited = (429, ErrorBody ''Rate limit exceeded'')"

section \<open>Rate limiters\<close>

definition RATE_WINDOW_MS :: int where "RATE_WINDOW_MS = 60 * 1000"
definition MAX_POST_OTM_PER_WINDOW :: nat where "MAX_POST_OTM_PER_WINDOW = 30"
definition MAX_GET_OTM_PER_WINDOW :: nat where "MAX_GET_OTM_PER_WINDOW = 60"

definition FILE_RATE_WINDOW_MS :: int where "FILE_RATE_WINDOW_MS = 60 * 1000"
definition MAX_POST_FILE_PER_WINDOW :: nat where "MAX_POST_FILE_PER_WINDOW = 10"
definition MAX_GET_FILE_PER_WINDOW :: nat where "MAX_GET_FILE_PER_WINDOW = 30"

definition CHAT_RATE_WINDOW_MS :: int where "CHAT_RATE_WINDOW_MS = 60 * 1000"
definition MAX_CHAT_INVITE_PER_WINDOW :: nat where "MAX_CHAT_INVITE_PER_WINDOW = 10"
definition MAX_CHAT_MESSAGE_PER_WINDOW :: nat where "MAX_CHAT_MESSAGE_PER_WINDOW = 60"

record bucket =
  windowStart :: int

record otm_bucket = bucket +
  postCount :: nat
  getCount :: nat

record file_bucket = bucket +
  uploadCount :: nat
  downloadCount :: nat

record chat_bucket = bucket +
  inviteCount :: nat
  messageCount :: nat

text \<open>
  The three limiters take the client address (the value of \<^verbatim>\<open>getClientIp(req)\<close>), the
  time and the action name, and return the verdict with the updated bucket map. The
  source mutates the bucket object in place, so the count is stored also when the
  verdict is \<open>False\<close>.
\<close>

definition checkRateLimit ::
  "(string \<rightharpoonup> otm_bucket) \<Rightarrow> string \<Rightarrow> int \<Rightarrow> string \<Rightarrow> bool \<times> (string \<rightharpoonup> otm_bucket)" where
  "checkRateLimit buckets ip now ty =
    (let fresh = \<lparr>windowStart = now, postCount = 0, getCount = 0\<rparr>;
         bucket = (case buckets ip of
                     None \<Rightarrow> fresh
                   | Some b \<Rightarrow> if now - windowStart b > RATE_WINDOW_MS then fresh else b);
         bucket1 = (if ty = ''post-otm'' then bucket\<lparr>postCount := postCount bucket + 1\<rparr> else bucket)
     in if ty = ''post-otm'' \<and> postCount bucket1 > MAX_POST_OTM_PER_WINDOW
        then (False, buckets(ip \<mapsto> bucket1))
        else
          let bucket2 = (if ty = ''get-otm'' then bucket1\<lparr>getCount := getCount bucket1 + 1\<rparr> else bucket1)
          in if ty = ''get-otm'' \<and> getCount bucket2 > MAX_GET_OTM_PER_WINDOW
             then (False, buckets(ip \<mapsto> bucket2))
             else (True, buckets(ip \<mapsto> bucket2)))"

definition checkFileRateLimit ::
  "(string \<rightharpoonup> file_bucket) \<Rightarrow> string \<Rightarrow> int \<Rightarrow> string \<Rightarrow> bool \<times> (string \<rightharpoonup> file_bucket)" where
  "checkFileRateLimit buckets ip now ty =
    (let fresh = \<lparr>windowStart = now, uploadCount = 0, downloadCount = 0\<rparr>;
         bucket = (case buckets ip of
                     None \<Rightarrow> fresh
                   | Some b \<Rightarrow> if now - windowStart b > FILE_RATE_WINDOW_MS then fresh else b);
         bucket1 = (if ty = ''upload'' then bucket\<lparr>uploadCount := uploadCount bucket + 1\<rparr> else bucket)
     in if ty = ''upload'' \<and> uploadCount bucket1 > MAX_POST_FILE_PER_WINDOW
        then (False, buckets(ip \<mapsto> bucket1))
        else
          let bucket2 = (if ty = ''download'' then bucket1\<lparr>downloadCount := downloadCount bucket1 + 1\<rparr> else bucket1)
          in if ty = ''download'' \<and> downloadCount bucket2 > MAX_GET_FILE_PER_WINDOW
             then (False, buckets(ip \<mapsto> bucket2))
             else (True, buckets(ip \<mapsto> bucket2)))"

definition checkChatRateLimit ::
  "(string \<rightharpoonup> chat_bucket) \<Rightarrow> string \<Rightarrow> int \<Rightarrow> string \<Rightarrow> bool \<times> (string \<rightharpoonup> chat_bucket)" where
  "checkChatRateLimit buckets ip now ty =
    (let fresh = \<lparr>windowStart = now, inviteCount = 0, messageCount = 0\<rparr>;
         bucket = (case buckets ip of
                     None \<Rightarrow> fresh
                   | Some b \<Rightarrow> if now - windowStart b > CHAT_RATE_WINDOW_MS then fresh else b);
         bucket1 = (if ty = ''invite'' then bucket\<lparr>inviteCount := inviteCount bucket + 1\<rparr> else bucket)
     in if ty = ''invite'' \<and> inviteCount bucket1 > MAX_CHAT_INVITE_PER_WINDOW
        then (False, buckets(ip \<mapsto> bucket1))
        else
          let bucket2 = (if ty = ''message'' then bucket1\<lparr>messageCount := messageCount bucket1 + 1\<rparr> else bucket1)
          in if ty = ''message'' \<and> messageCount bucket2 > MAX_CHAT_MESSAGE_PER_WINDOW
             then (False, buckets(ip \<mapsto> bucket2))
             else (True, buckets(ip \<mapsto> bucket2)))"

text \<open>
  A run of requests against a limiter, each request given by its client address, its
  time and its action: the verdicts in order, and the bucket map left behind.
\<close>

fun serve ::
  "('m \<Rightarrow> string \<Rightarrow> int \<Rightarrow> string \<Rightarrow> bool \<times> 'm) \<Rightarrow> 'm \<Rightarrow> (string \<times> int \<times> string) list \<Rightarrow> bool list \<times> 'm" where
  "serve check buckets [] = ([], buckets)"
| "serve check buckets ((ip, now, ty) # rs) =
     (let (ok, buckets') = check buckets ip now ty;
          (oks, buckets'') = serve check buckets' rs
      in (ok # oks, buckets''))"

section \<open>Stores and server state\<close>

definition OTM_TTL_MS :: int where "OTM_TTL_MS = 7 * 24 * 60 * 60 * 1000"
definition FILE_TTL_MS :: int where "FILE_TTL_MS = 24 * 60 * 60 * 1000"
definition CHAT_INVITE_TTL_MS :: int where "CHAT_INVITE_TTL_MS = 24 * 60 * 60 * 1000"
definition CHAT_MESSAGE_TTL_MS :: int where "CHAT_MESSAGE_TTL_MS = 7 * 24 * 60 * 60 * 1000"

record stamped =
  createdAt :: int

text \<open>An entry of \<^verbatim>\<open>otmStore\<close> (a string) or of \<^verbatim>\<open>fileStore\<close> (bytes).\<close>

record 'a entry = stamped +
  ciphertext :: 'a

record invite_entry = stamped +
  publicKeyBundle :: string
  expiresAt :: jsnum
  claimed :: bool
  claimerBundle :: "string option"

text \<open>
  A queued message \<^verbatim>\<open>{ id, from, payload, timestamp }\<close>; the fields carry a prefix because
  \<open>id\<close> and \<open>from\<close> are taken in Isabelle.
\<close>

record message =
  msg_id :: string
  msg_from :: string
  msg_payload :: string
  msg_timestamp :: int

text \<open>
  A room \<^verbatim>\<open>{ clients: new Set(), timer }\<close>. Sockets are named by numbers; \<open>timer\<close> is
  the handle of the last \<^verbatim>\<open>setTimeout\<close>, which the source never resets to null.
\<close>

record room =
  clients :: "nat set"
  timer :: "nat option"

text \<open>
  The module's global variables. \<open>totals\<close> is the row of the metrics table, \<open>dbPool\<close>
  whether the pool exists; \<open>timeouts\<close> holds the pending \<^verbatim>\<open>setTimeout\<close> callbacks (handle
  to room id) and \<open>nextTimeout\<close> the next handle.
\<close>

record server =
  dbPool :: bool
  totals :: "string \<Rightarrow> nat"
  otmStore :: "string \<rightharpoonup> string entry"
  fileStore :: "string \<rightharpoonup> nat list entry"
  chatInviteStore :: "string \<rightharpoonup> invite_entry"
  chatMessageStore :: "string \<rightharpoonup> message list"
  chatConnections :: "string \<rightharpoonup> nat"
  rateBuckets :: "string \<rightharpoonup> otm_bucket"
  fileRateBuckets :: "string \<rightharpoonup> file_bucket"
  chatRateBuckets :: "string \<rightharpoonup> chat_bucket"
  rooms :: "string \<rightharpoonup> room"
  burnedRooms :: "string set"
  sockets :: "nat \<Rightarrow> socket"
  timeouts :: "nat \<rightharpoonup> string"
  nextTimeout :: nat

text \<open>The state of a process that has just started, with the metrics pool up.\<close>

definition initial :: server where
  "initial = \<lparr>dbPool = True, totals = (\<lambda>_. 0), otmStore = Map.empty, fileStore = Map.empty,
     chatInviteStore = Map.empty, chatMessageStore = Map.empty, chatConnections = Map.empty,
     rateBuckets = Map.empty, fileRateBuckets = Map.empty, chatRateBuckets = Map.empty,
     rooms = Map.empty, burnedRooms = {}, sockets = (\<lambda>_. \<lparr>readyState = 1, outbox = []\<rparr>),
     timeouts = Map.empty, nextTimeout = 0\<rparr>"

text \<open>
  \<^verbatim>\<open>incrementMetric\<close>: nothing without a pool or for a field outside the allowed list;
  otherwise the UPDATE adds one to the field's total.
\<close>

definition incrementMetric :: "string \<Rightarrow> server \<Rightarrow> server" where
  "incrementMetric field s =
    (if \<not> dbPool s then s
     else if field \<notin> set [''rooms_created'', ''otm_created'', ''files_created'',
                            ''chat_invites_created'', ''chat_messages_sent''] then s
     else s\<lparr>totals := (totals s)(field := totals s field + 1)\<rparr>)"

section \<open>One-time messages and files\<close>

text \<open>
  POST /otm. The parsed body is \<open>None\<close> when \<^verbatim>\<open>JSON.parse\<close> throws, otherwise the value of
  its \<^verbatim>\<open>ciphertext\<close> field (the empty string when falsy). \<open>newId\<close> is the result of
  \<^verbatim>\<open>generateOtmId()\<close>.
\<close>

definition otm_create :: "server \<Rightarrow> string \<Rightarrow> int \<Rightarrow> string option \<Rightarrow> string \<Rightarrow> response \<times> server" where
  "otm_create s ip now parsed newId =
    (let (ok, buckets) = checkRateLimit (rateBuckets s) ip now ''post-otm'';
         s1 = s\<lparr>rateBuckets := buckets\<rparr>
     in if \<not> ok then (rate_limited, s1)
        else case parsed of
          None \<Rightarrow> ((400, ErrorBody ''Invalid JSON''), s1)
        | Some c \<Rightarrow>
            if c = [] then ((400, ErrorBody ''Missing ciphertext''), s1)
            else ((201, IdBody newId),
                  incrementMetric ''otm_created''
                    (s1\<lparr>otmStore := (otmStore s1)(newId \<mapsto> \<lparr>createdAt = now, ciphertext = c\<rparr>)\<rparr>)))"

text \<open>GET /otm/\{id\}: the one-time read.\<close>

definition otm_read :: "server \<Rightarrow> string \<Rightarrow> int \<Rightarrow> string \<Rightarrow> response \<times> server" where
  "otm_read s ip now ident =
    (let (ok, buckets) = checkRateLimit (rateBuckets s) ip now ''get-otm'';
         s1 = s\<lparr>rateBuckets := buckets\<rparr>
     in if \<not> ok then (rate_limited, s1)
        else case otmStore s1 ident of
          None \<Rightarrow> ((404, UsedBody), s1)
        | Some entry \<Rightarrow>
            if now - createdAt entry > OTM_TTL_MS
            then ((404, UsedBody), s1\<lparr>otmStore := (otmStore s1)(ident := None)\<rparr>)
            else ((200, CiphertextBody (ciphertext entry)),
                  s1\<lparr>otmStore := (otmStore s1)(ident := None)\<rparr>))"

definition otm_sweep :: "int \<Rightarrow> server \<Rightarrow> server" where
  "otm_sweep now s =
    s\<lparr>otmStore := (\<lambda>ident. case otmStore s ident of
                         None \<Rightarrow> None
                       | Some entry \<Rightarrow> if now - createdAt entry > OTM_TTL_MS then None else Some entry)\<rparr>"

text \<open>POST /file and GET /file/\{id\}, with the body bytes as received.\<close>

definition file_upload :: "server \<Rightarrow> string \<Rightarrow> int \<Rightarrow> nat list \<Rightarrow> string \<Rightarrow> response \<times> server" where
  "file_upload s ip now bytes newId =
    (let (ok, buckets) = checkFileRateLimit (fileRateBuckets s) ip now ''upload'';
         s1 = s\<lparr>fileRateBuckets := buckets\<rparr>
     in if \<not> ok then (rate_limited, s1)
        else ((201, IdBody newId),
              incrementMetric ''files_created''
                (s1\<lparr>fileStore := (fileStore s1)(newId \<mapsto> \<lparr>createdAt = now, ciphertext = bytes\<rparr>)\<rparr>)))"

definition file_download :: "server \<Rightarrow> string \<Rightarrow> int \<Rightarrow> string \<Rightarrow> response \<times> server" where
  "file_download s ip now ident =
    (let (ok, buckets) = checkFileRateLimit (fileRateBuckets s) ip now ''download'';
         s1 = s\<lparr>fileRateBuckets := buckets\<rparr>
     in if \<not> ok then (rate_limited, s1)
        else case fileStore s1 ident of
          None \<Rightarrow> ((404, UsedBody), s1)
        | Some entry \<Rightarrow>
            if now - createdAt entry > FILE_TTL_MS
            then ((404, UsedBody), s1\<lparr>fileStore := (fileStore s1)(ident := None)\<rparr>)
            else ((200, OctetStream (ciphertext entry)),
                  s1\<lparr>fileStore := (fileStore s1)(ident := None)\<rparr>))"

definition file_sweep :: "int \<Rightarrow> server \<Rightarrow> server" where
  "file_sweep now s =
    s\<lparr>fileStore := (\<lambda>ident. case fileStore s ident of
                          None \<Rightarrow> None
                        | Some entry \<Rightarrow> if now - createdAt entry > FILE_TTL_MS then None else Some entry)\<rparr>"

section \<open>Chat invites\<close>

text \<open>
  The destructured body \<^verbatim>\<open>{ inviteId, publicKeyBundle, expiresAt }\<close> of POST /chat/invite;
  a string field is empty when it is missing or falsy.
\<close>

datatype invite_req = InviteReq string string expires_arg

text \<open>The \<^verbatim>\<open>end\<close> callback of POST /chat/invite.\<close>

definition chat_invite_create_end :: "server \<Rightarrow> int \<Rightarrow> invite_req option \<Rightarrow> response \<times> server" where
  "chat_invite_create_end s now parsed =
    (case parsed of
       None \<Rightarrow> ((400, ErrorBody ''Invalid JSON''), s)
     | Some (InviteReq inviteId bundle expires) \<Rightarrow>
         if inviteId = [] \<or> bundle = []
         then ((400, ErrorBody ''Missing inviteId or publicKeyBundle''), s)
         else if chatInviteStore s inviteId \<noteq> None
         then ((409, ErrorBody ''Invite ID already exists''), s)
         else ((201, InviteCreated inviteId),
               incrementMetric ''chat_invites_created''
                 (s\<lparr>chatInviteStore := (chatInviteStore s)(inviteId \<mapsto>
                      \<lparr>createdAt = now,
                       publicKeyBundle = bundle,
                       expiresAt = (case expires of
                                      NoExpiry \<Rightarrow> Num (now + CHAT_INVITE_TTL_MS)
                                    | ParsesTo t \<Rightarrow> Num t
                                    | Unparseable \<Rightarrow> NaN),
                       claimed = False,
                       claimerBundle = None\<rparr>)\<rparr>)))"

definition chat_invite_create :: "server \<Rightarrow> string \<Rightarrow> int \<Rightarrow> invite_req option \<Rightarrow> response \<times> server" where
  "chat_invite_create s ip now parsed =
    (let (ok, buckets) = checkChatRateLimit (chatRateBuckets s) ip now ''invite'';
         s1 = s\<lparr>chatRateBuckets := buckets\<rparr>
     in if \<not> ok then (rate_limited, s1) else chat_invite_create_end s1 now parsed)"

text \<open>GET /chat/invite/\{id\}; it has no rate limit.\<close>

definition chat_invite_get :: "server \<Rightarrow> int \<Rightarrow> string \<Rightarrow> response \<times> server" where
  "chat_invite_get s now inviteId =
    (case chatInviteStore s inviteId of
       None \<Rightarrow> ((404, ErrorBody ''Invite not found''), s)
     | Some entry \<Rightarrow>
         if js_gt now (expiresAt entry)
         then ((404, ErrorBody ''Invite expired''),
               s\<lparr>chatInviteStore := (chatInviteStore s)(inviteId := None)\<rparr>)
         else ((200, InviteView inviteId (publicKeyBundle entry) (claimed entry) (claimerBundle entry)), s))"

text \<open>
  The \<^verbatim>\<open>end\<close> callback of POST /chat/invite/\{id\}/claim. The parsed body is \<open>None\<close> when
  \<^verbatim>\<open>JSON.parse\<close> throws, otherwise its \<^verbatim>\<open>claimerBundle\<close> field (empty when falsy).
\<close>

definition chat_invite_claim_end :: "server \<Rightarrow> int \<Rightarrow> string \<Rightarrow> string option \<Rightarrow> response \<times> server" where
  "chat_invite_claim_end s now inviteId parsed =
    (case parsed of
       None \<Rightarrow> ((400, ErrorBody ''Invalid JSON''), s)
     | Some bundle \<Rightarrow>
         if bundle = [] then ((400, ErrorBody ''Missing claimerBundle''), s)
         else case chatInviteStore s inviteId of
           None \<Rightarrow> ((404, ErrorBody ''Invite not found''), s)
         | Some entry \<Rightarrow>
             if js_gt now (expiresAt entry)
             then ((404, ErrorBody ''Invite expired''),
                   s\<lparr>chatInviteStore := (chatInviteStore s)(inviteId := None)\<rparr>)
             else if claimed entry
             then ((409, ErrorBody ''Invite already claimed''), s)
             else ((200, ClaimOk (publicKeyBundle entry)),
                   s\<lparr>chatInviteStore := (chatInviteStore s)(inviteId \<mapsto>
                        entry\<lparr>claimed := True, claimerBundle := Some bundle\<rparr>)\<rparr>))"

definition chat_invite_claim ::
  "server \<Rightarrow> string \<Rightarrow> int \<Rightarrow> string \<Rightarrow> string option \<Rightarrow> response \<times> server" where
  "chat_invite_claim s ip now inviteId parsed =
    (let (ok, buckets) = checkChatRateLimit (chatRateBuckets s) ip now ''invite'';
         s1 = s\<lparr>chatRateBuckets := buckets\<rparr>
     in if \<not> ok then (rate_limited, s1) else chat_invite_claim_end s1 now inviteId parsed)"

text \<open>The periodic cleanup of \<^verbatim>\<open>chatInviteStore\<close>.\<close>

definition invite_sweep :: "int \<Rightarrow> server \<Rightarrow> server" where
  "invite_sweep now s =
    s\<lparr>chatInviteStore := (\<lambda>ident. case chatInviteStore s ident of
                                None \<Rightarrow> None
                              | Some entry \<Rightarrow>
                                  if now - createdAt entry > CHAT_INVITE_TTL_MS then None else Some entry)\<rparr>"

section \<open>Chat messages\<close>

text \<open>
  Values of \<^verbatim>\<open>JSON.parse\<close>, for the places where the source inspects a parsed value by
  hand. An object is the list of its own properties (\<^verbatim>\<open>JSON.parse\<close> keeps one value per
  key).
\<close>

datatype json =
    JNull
  | JBool bool
  | JNum int
  | JStr string
  | JArr "json list"
  | JObj "(string \<times> json) list"

text \<open>The destructured body \<^verbatim>\<open>{ to, from, encryptedMessage, messageId }\<close>.\<close>

datatype msg_req = MsgReq string string string string

text \<open>The \<^verbatim>\<open>end\<close> callback of POST /chat/message.\<close>

definition chat_message_send_end :: "server \<Rightarrow> int \<Rightarrow> msg_req option \<Rightarrow> response \<times> server" where
  "chat_message_send_end s now parsed =
    (case parsed of
       None \<Rightarrow> ((400, ErrorBody ''Invalid JSON''), s)
     | Some (MsgReq to sender encryptedMessage messageId) \<Rightarrow>
         if to = [] \<or> encryptedMessage = [] \<or> messageId = []
         then ((400, ErrorBody ''Missing to, encryptedMessage, or messageId''), s)
         else
           let s1 = (if chatMessageStore s to = None
                     then s\<lparr>chatMessageStore := (chatMessageStore s)(to \<mapsto> [])\<rparr> else s);
               messages = (case chatMessageStore s1 to of None \<Rightarrow> [] | Some ms \<Rightarrow> ms)
           in if list_ex (\<lambda>m. msg_id m = messageId) messages
              then ((200, DuplicateBody), s1)
              else
                let origin = (if sender = [] then ''unknown'' else sender);
                    s2 = s1\<lparr>chatMessageStore := (chatMessageStore s1)(to \<mapsto> messages @
                           [\<lparr>msg_id = messageId, msg_from = origin,
                             msg_payload = encryptedMessage, msg_timestamp = now\<rparr>])\<rparr>;
                    s3 = incrementMetric ''chat_messages_sent'' s2;
                    s4 = (case chatConnections s3 to of
                            None \<Rightarrow> s3
                          | Some recipientWs \<Rightarrow>
                              if readyState (sockets s3 recipientWs) = 1
                              then s3\<lparr>sockets := (sockets s3)(recipientWs :=
                                     ws_send (NewMessage messageId origin encryptedMessage)
                                       (sockets s3 recipientWs))\<rparr>
                              else s3)
                in ((201, SuccessBody), s4))"

definition chat_message_send :: "server \<Rightarrow> string \<Rightarrow> int \<Rightarrow> msg_req option \<Rightarrow> response \<times> server" where
  "chat_message_send s ip now parsed =
    (let (ok, buckets) = checkChatRateLimit (chatRateBuckets s) ip now ''message'';
         s1 = s\<lparr>chatRateBuckets := buckets\<rparr>
     in if \<not> ok then (rate_limited, s1) else chat_message_send_end s1 now parsed)"

text \<open>
  The removal that both acknowledgement paths perform on the mailbox of a fingerprint:
  \<^verbatim>\<open>messages.filter(m => !messageIds.includes(m.id))\<close>, then delete or set.
\<close>

definition ack_messages :: "server \<Rightarrow> string \<Rightarrow> json list \<Rightarrow> server" where
  "ack_messages s fingerprint messageIds =
    (case chatMessageStore s fingerprint of
       None \<Rightarrow> s
     | Some messages \<Rightarrow>
         let remaining = filter (\<lambda>m. JStr (msg_id m) \<notin> set messageIds) messages
         in if remaining = []
            then s\<lparr>chatMessageStore := (chatMessageStore s)(fingerprint := None)\<rparr>
            else s\<lparr>chatMessageStore := (chatMessageStore s)(fingerprint \<mapsto> remaining)\<rparr>)"

text \<open>
  The body \<^verbatim>\<open>{ fingerprint, messageIds }\<close> of POST /chat/messages/ack; \<open>messageIds\<close> is
  \<open>None\<close> when the field is not an array.
\<close>

datatype ack_req = AckReq string "json list option"

definition chat_messages_ack :: "server \<Rightarrow> ack_req option \<Rightarrow> response \<times> server" where
  "chat_messages_ack s parsed =
    (case parsed of
       None \<Rightarrow> ((400, ErrorBody ''Invalid JSON''), s)
     | Some (AckReq fingerprint messageIds) \<Rightarrow>
         (case messageIds of
            None \<Rightarrow> ((400, ErrorBody ''Missing fingerprint or messageIds''), s)
          | Some ids \<Rightarrow>
              if fingerprint = []
              then ((400, ErrorBody ''Missing fingerprint or messageIds''), s)
              else ((200, SuccessBody), ack_messages s fingerprint ids)))"

definition message_sweep :: "int \<Rightarrow> server \<Rightarrow> server" where
  "message_sweep now s =
    s\<lparr>chatMessageStore := (\<lambda>fingerprint. case chatMessageStore s fingerprint of
          None \<Rightarrow> None
        | Some messages \<Rightarrow>
            let remaining = filter (\<lambda>m. now - msg_timestamp m < CHAT_MESSAGE_TTL_MS) messages
            in if remaining = [] then None else Some remaining)\<rparr>"

section \<open>WebSockets: chat sockets and rooms\<close>

text \<open>
  Property access \<^verbatim>\<open>v.key\<close> on a parsed value, for the keys the handlers read (\<open>type\<close>,
  \<open>action\<close>, \<open>roomId\<close>, \<open>messageIds\<close>): \<open>None\<close> is \<^verbatim>\<open>undefined\<close>, which is what every value
  but an object with that key gives. On \<^verbatim>\<open>null\<close> the access throws; the callers below
  test for it first.
\<close>

fun js_get :: "json \<Rightarrow> string \<Rightarrow> json option" where
  "js_get (JObj props) key = map_of props key"
| "js_get _ key = None"

fun js_truthy :: "json \<Rightarrow> bool" where
  "js_truthy JNull = False"
| "js_truthy (JBool b) = b"
| "js_truthy (JNum n) = (n \<noteq> 0)"
| "js_truthy (JStr s) = (s \<noteq> [])"
| "js_truthy (JArr _) = True"
| "js_truthy (JObj _) = True"

text \<open>
  The \<^verbatim>\<open>message\<close> handler of a chat socket registered for \<open>chatFingerprint\<close>. \<open>parse\<close>
  stands for \<^verbatim>\<open>JSON.parse\<close> (\<open>None\<close> when it throws); a parsed \<^verbatim>\<open>null\<close> makes
  \<^verbatim>\<open>parsed.type\<close> throw, and the handler ignores every exception.
\<close>

definition chat_socket_message :: "(string \<Rightarrow> json option) \<Rightarrow> server \<Rightarrow> string \<Rightarrow> string \<Rightarrow> server" where
  "chat_socket_message parse s chatFingerprint text =
    (case parse text of
       None \<Rightarrow> s
     | Some JNull \<Rightarrow> s
     | Some parsed \<Rightarrow>
         (case js_get parsed ''messageIds'' of
            Some (JArr ids) \<Rightarrow>
              if js_get parsed ''type'' = Some (JStr ''ack'')
              then ack_messages s chatFingerprint ids else s
          | _ \<Rightarrow> s))"

definition chat_socket_close :: "server \<Rightarrow> nat \<Rightarrow> string \<Rightarrow> server" where
  "chat_socket_close s ws chatFingerprint =
    (if chatConnections s chatFingerprint = Some ws
     then s\<lparr>chatConnections := (chatConnections s)(chatFingerprint := None)\<rparr> else s)"

definition getRoom :: "server \<Rightarrow> string \<Rightarrow> server" where
  "getRoom s roomId =
    (if rooms s roomId = None
     then s\<lparr>rooms := (rooms s)(roomId \<mapsto> \<lparr>clients = {}, timer = None\<rparr>)\<rparr> else s)"

definition scheduleDestruction :: "server \<Rightarrow> string \<Rightarrow> server" where
  "scheduleDestruction s roomId =
    (case rooms s roomId of
       None \<Rightarrow> s
     | Some room \<Rightarrow>
         s\<lparr>rooms := (rooms s)(roomId \<mapsto> room\<lparr>timer := Some (nextTimeout s)\<rparr>),
           timeouts := (timeouts s)(nextTimeout s \<mapsto> roomId),
           nextTimeout := nextTimeout s + 1\<rparr>)"

text \<open>The callback of the destruction timer, when the timeout with this handle fires.\<close>

definition timeout_fires :: "server \<Rightarrow> nat \<Rightarrow> server" where
  "timeout_fires s handle =
    (case timeouts s handle of
       None \<Rightarrow> s
     | Some roomId \<Rightarrow>
         s\<lparr>rooms := (rooms s)(roomId := None), timeouts := (timeouts s)(handle := None)\<rparr>)"

definition clearTimeout :: "server \<Rightarrow> nat \<Rightarrow> server" where
  "clearTimeout s handle = s\<lparr>timeouts := (timeouts s)(handle := None)\<rparr>"

text \<open>Sending one frame to every member of a set that passes a test.\<close>

definition send_each :: "server \<Rightarrow> nat set \<Rightarrow> (nat \<Rightarrow> bool) \<Rightarrow> frame \<Rightarrow> server" where
  "send_each s members cond f =
    s\<lparr>sockets := (\<lambda>client. if client \<in> members \<and> cond client \<and> readyState (sockets s client) = 1
                           then ws_send f (sockets s client) else sockets s client)\<rparr>"

definition broadcastPresence :: "server \<Rightarrow> string \<Rightarrow> server" where
  "broadcastPresence s roomId =
    (case rooms s roomId of
       None \<Rightarrow> s
     | Some room \<Rightarrow> send_each s (clients room) (\<lambda>_. True) (Presence roomId (card (clients room))))"

text \<open>
  The \<^verbatim>\<open>connection\<close> handler. \<open>roomId\<close> and \<open>chatFingerprint\<close> are the query parameters,
  empty when absent (\<^verbatim>\<open>searchParams.get\<close> gives null, which is falsy like the empty string).
\<close>

definition on_connection :: "server \<Rightarrow> nat \<Rightarrow> string \<Rightarrow> string \<Rightarrow> server" where
  "on_connection s ws roomId chatFingerprint =
    (if chatFingerprint \<noteq> []
     then s\<lparr>chatConnections := (chatConnections s)(chatFingerprint \<mapsto> ws),
            sockets := (sockets s)(ws := ws_send (Connected chatFingerprint) (sockets s ws))\<rparr>
     else if roomId = []
     then s\<lparr>sockets := (sockets s)(ws := ws_close (sockets s ws))\<rparr>
     else if roomId \<in> burnedRooms s
     then s\<lparr>sockets := (sockets s)(ws := ws_close (ws_send (RoomDestroyed roomId) (sockets s ws)))\<rparr>
     else
       let isNewRoom = (rooms s roomId = None);
           s1 = getRoom s roomId;
           s2 = (if isNewRoom then incrementMetric ''rooms_created'' s1 else s1);
           s3 = (case rooms s2 roomId of
                   None \<Rightarrow> s2
                 | Some room \<Rightarrow>
                     s2\<lparr>rooms := (rooms s2)(roomId \<mapsto> room\<lparr>clients := insert ws (clients room)\<rparr>)\<rparr>);
           s4 = (case rooms s3 roomId of
                   None \<Rightarrow> s3
                 | Some room \<Rightarrow> (case timer room of None \<Rightarrow> s3 | Some h \<Rightarrow> clearTimeout s3 h))
       in broadcastPresence s4 roomId)"

text \<open>A frame received on a socket: binary, or text.\<close>

datatype ws_data = Binary "nat list" | Text string

text \<open>
  The test of the burn control frame:
  \<^verbatim>\<open>parsed && parsed.type === "control" && parsed.action === "burnRoom" && parsed.roomId === roomId\<close>,
  where \<open>parsed\<close> stays \<^verbatim>\<open>null\<close> when \<^verbatim>\<open>JSON.parse\<close> throws.
\<close>

definition is_burn_frame :: "(string \<Rightarrow> json option) \<Rightarrow> string \<Rightarrow> string \<Rightarrow> bool" where
  "is_burn_frame parse text roomId =
    (let parsed = (case parse text of None \<Rightarrow> JNull | Some v \<Rightarrow> v)
     in js_truthy parsed
        \<and> js_get parsed ''type'' = Some (JStr ''control'')
        \<and> js_get parsed ''action'' = Some (JStr ''burnRoom'')
        \<and> js_get parsed ''roomId'' = Some (JStr roomId))"

text \<open>The \<^verbatim>\<open>message\<close> handler of the room socket \<open>ws\<close> that joined \<open>roomId\<close>.\<close>

definition room_message :: "(string \<Rightarrow> json option) \<Rightarrow> server \<Rightarrow> nat \<Rightarrow> string \<Rightarrow> ws_data \<Rightarrow> server" where
  "room_message parse s ws roomId data =
    (case data of
       Binary bytes \<Rightarrow>
         (case rooms s roomId of
            None \<Rightarrow> s
          | Some r \<Rightarrow> send_each s (clients r) (\<lambda>client. client \<noteq> ws) (BinaryFrame bytes))
     | Text text \<Rightarrow>
         if is_burn_frame parse text roomId
         then
           let s1 = s\<lparr>burnedRooms := insert roomId (burnedRooms s)\<rparr>
           in (case rooms s1 roomId of
                 Some r \<Rightarrow>
                   s1\<lparr>sockets := (\<lambda>client.
                          if client \<in> clients r
                          then ws_close (if readyState (sockets s1 client) = 1
                                         then ws_send (RoomDestroyed roomId) (sockets s1 client)
                                         else sockets s1 client)
                          else sockets s1 client),
                      rooms := (rooms s1)(roomId := None)\<rparr>
               | None \<Rightarrow>
                   s1\<lparr>sockets := (sockets s1)(ws :=
                          ws_close (ws_send (RoomDestroyed roomId) (sockets s1 ws)))\<rparr>)
         else
           (case rooms s roomId of
              None \<Rightarrow> s
            | Some r \<Rightarrow> send_each s (clients r) (\<lambda>client. client \<noteq> ws) (TextFrame text)))"

text \<open>The \<^verbatim>\<open>close\<close> handler of the room socket \<open>ws\<close> that joined \<open>roomId\<close>.\<close>

definition room_close :: "server \<Rightarrow> nat \<Rightarrow> string \<Rightarrow> server" where
  "room_close s ws roomId =
    (case rooms s roomId of
       None \<Rightarrow> s
     | Some room \<Rightarrow>
         let room' = room\<lparr>clients := clients room - {ws}\<rparr>;
             s1 = s\<lparr>rooms := (rooms s)(roomId \<mapsto> room')\<rparr>
         in if clients room' = {} then scheduleDestruction s1 roomId
            else broadcastPresence s1 roomId)"

section \<open>Events and runs\<close>

text \<open>
  Everything that changes the state of the process: the HTTP requests that write, the
  four sweepers, the socket events and the destruction timer. The lookups that only
  read (/health, /metrics, GET /chat/messages) are left out, and so is a request whose
  body passes the size cap: the source destroys it before its \<^verbatim>\<open>end\<close> callback can
  run. \<open>PeerClosing\<close> is the one
  event of the environment: the peer's close frame arrives on a socket, which the
  WebSocket library moves to CLOSING; the socket's \<^verbatim>\<open>close\<close> handler runs later, as an
  event of its own.
\<close>

datatype event =
    OtmCreate string int "string option" string
  | OtmRead string int string
  | OtmSweep int
  | FileUpload string int "nat list" string
  | FileDownload string int string
  | FileSweep int
  | InviteCreate string int "invite_req option"
  | InviteGet int string
  | InviteClaim string int string "string option"
  | InviteSweep int
  | MessageSend string int "msg_req option"
  | MessagesAck "ack_req option"
  | MessageSweep int
  | WsConnection nat string string
  | ChatSocketMessage string string
  | ChatSocketClose nat string
  | RoomMessage nat string ws_data
  | RoomClose nat string
  | TimeoutFires nat
  | PeerClosing nat

fun step :: "(string \<Rightarrow> json option) \<Rightarrow> server \<Rightarrow> event \<Rightarrow> response option \<times> server" where
  "step parse s (OtmCreate ip now parsed newId) = map_prod Some (\<lambda>x. x) (otm_create s ip now parsed newId)"
| "step parse s (OtmRead ip now ident) = map_prod Some (\<lambda>x. x) (otm_read s ip now ident)"
| "step parse s (OtmSweep now) = (None, otm_sweep now s)"
| "step parse s (FileUpload ip now bytes newId) = map_prod Some (\<lambda>x. x) (file_upload s ip now bytes newId)"
| "step parse s (FileDownload ip now ident) = map_prod Some (\<lambda>x. x) (file_download s ip now ident)"
| "step parse s (FileSweep now) = (None, file_sweep now s)"
| "step parse s (InviteCreate ip now parsed) = map_prod Some (\<lambda>x. x) (chat_invite_create s ip now parsed)"
| "step parse s (InviteGet now inviteId) = map_prod Some (\<lambda>x. x) (chat_invite_get s now inviteId)"
| "step parse s (InviteClaim ip now inviteId parsed) =
     map_prod Some (\<lambda>x. x) (chat_invite_claim s ip now inviteId parsed)"
| "step parse s (InviteSweep now) = (None, invite_sweep now s)"
| "step parse s (MessageSend ip now parsed) = map_prod Some (\<lambda>x. x) (chat_message_send s ip now parsed)"
| "step parse s (MessagesAck parsed) = map_prod Some (\<lambda>x. x) (chat_messages_ack s parsed)"
| "step parse s (MessageSweep now) = (None, message_sweep now s)"
| "step parse s (WsConnection ws roomId chatFingerprint) = (None, on_connection s ws roomId chatFingerprint)"
| "step parse s (ChatSocketMessage chatFingerprint text) =
     (None, chat_socket_message parse s chatFingerprint text)"
| "step parse s (ChatSocketClose ws chatFingerprint) = (None, chat_socket_close s ws chatFingerprint)"
| "step parse s (RoomMessage ws roomId data) = (None, room_message parse s ws roomId data)"
| "step parse s (RoomClose ws roomId) = (None, room_close s ws roomId)"
| "step parse s (TimeoutFires handle) = (None, timeout_fires s handle)"
| "step parse s (PeerClosing ws) = (None, s\<lparr>sockets := (sockets s)(ws := ws_close (sockets s ws))\<rparr>)"

text \<open>A run: the responses in order (\<open>None\<close> for an event that answers nobody) and the final state.\<close>

fun run :: "(string \<Rightarrow> json option) \<Rightarrow> server \<Rightarrow> event list \<Rightarrow> response option list \<times> server" where
  "run parse s [] = ([], s)"
| "run parse s (e # es) =
     (let (r, s') = step parse s e; (rs, s'') = run parse s' es in (r # rs, s''))"

section \<open>Vocabulary of the properties\<close>

text \<open>
  What a limiter keeps for a client: the start of the window and the counters of the
  two actions of its family.
\<close>

definition otm_view :: "otm_bucket \<Rightarrow> int \<times> nat \<times> nat" where
  "otm_view b = (windowStart b, postCount b, getCount b)"

definition file_view :: "file_bucket \<Rightarrow> int \<times> nat \<times> nat" where
  "file_view b = (windowStart b, uploadCount b, downloadCount b)"

definition chat_view :: "chat_bucket \<Rightarrow> int \<times> nat \<times> nat" where
  "chat_view b = (windowStart b, inviteCount b, messageCount b)"

text \<open>
  The window that a request at time \<open>now\<close> falls in, given what is kept for its client:
  the kept window, or a new one that starts at \<open>now\<close> with both counters at 0 when nothing
  is kept or the kept window started more than 60 s before.
\<close>

definition window_at :: "(int \<times> nat \<times> nat) option \<Rightarrow> int \<Rightarrow> int \<times> nat \<times> nat" where
  "window_at kept now =
    (case kept of
       None \<Rightarrow> (now, 0, 0)
     | Some (start, n1, n2) \<Rightarrow> if now - start > 60 * 1000 then (now, 0, 0) else (start, n1, n2))"

text \<open>A window after \<open>m1\<close> more requests of the first action and \<open>m2\<close> of the second.\<close>

definition counting :: "nat \<Rightarrow> nat \<Rightarrow> int \<times> nat \<times> nat \<Rightarrow> int \<times> nat \<times> nat" where
  "counting m1 m2 w = (case w of (start, n1, n2) \<Rightarrow> (start, n1 + m1, n2 + m2))"

text \<open>
  A request of action \<open>ty\<close> is within the limits of a window when the counter of its
  action is at most the threshold of the action; an action outside the family has no
  threshold.
\<close>

definition within_limits :: "string \<Rightarrow> nat \<Rightarrow> string \<Rightarrow> nat \<Rightarrow> string \<Rightarrow> int \<times> nat \<times> nat \<Rightarrow> bool" where
  "within_limits a1 l1 a2 l2 ty w =
    (case w of (start, n1, n2) \<Rightarrow> (ty = a1 \<longrightarrow> n1 \<le> l1) \<and> (ty = a2 \<longrightarrow> n2 \<le> l2))"

text \<open>The number of requests of client \<open>ip\<close> with action \<open>ty\<close> in a run.\<close>

definition tally :: "string \<Rightarrow> string \<Rightarrow> (string \<times> int \<times> string) list \<Rightarrow> nat" where
  "tally ip ty reqs = length (filter (\<lambda>(ip', now, ty'). ip' = ip \<and> ty' = ty) reqs)"

text \<open>
  One request against a limiter with the actions \<open>a1\<close>, \<open>a2\<close> and the thresholds \<open>l1\<close>,
  \<open>l2\<close>: the request is counted in the window it falls in, the verdict is whether the
  window is then within the limits, the bucket of the client keeps the window, and the
  bucket of no other client changes.
\<close>

definition limiter_step ::
  "((string \<rightharpoonup> 'b) \<Rightarrow> string \<Rightarrow> int \<Rightarrow> string \<Rightarrow> bool \<times> (string \<rightharpoonup> 'b)) \<Rightarrow> ('b \<Rightarrow> int \<times> nat \<times> nat)
    \<Rightarrow> string \<Rightarrow> nat \<Rightarrow> string \<Rightarrow> nat \<Rightarrow> (string \<rightharpoonup> 'b) \<Rightarrow> string \<Rightarrow> int \<Rightarrow> string \<Rightarrow> bool" where
  "limiter_step check view a1 l1 a2 l2 buckets ip now ty =
    (let w = counting (if ty = a1 then 1 else 0) (if ty = a2 then 1 else 0)
               (window_at (map_option view (buckets ip)) now)
     in fst (check buckets ip now ty) = within_limits a1 l1 a2 l2 ty w
        \<and> map_option view (snd (check buckets ip now ty) ip) = Some w
        \<and> (snd (check buckets ip now ty))(ip := None) = buckets(ip := None))"

text \<open>Every request of client \<open>ip\<close> in the run is made no later than 60 s after \<open>start\<close>.\<close>

definition in_window :: "string \<Rightarrow> int \<Rightarrow> (string \<times> int \<times> string) list \<Rightarrow> bool" where
  "in_window ip start reqs = list_all (\<lambda>(ip', now, ty). ip' = ip \<longrightarrow> now - start \<le> 60 * 1000) reqs"

text \<open>
  A run served in the window \<open>w\<close> of client \<open>ip\<close>, whatever the other clients do in
  between: each request of \<open>ip\<close> is admitted exactly when \<open>w\<close>, with the requests of \<open>ip\<close>
  counted per action up to and including this one, is within the limits; and at the end
  the bucket of \<open>ip\<close> keeps the start of \<open>w\<close> and, for each action, the count of \<open>w\<close> plus
  the number of requests of \<open>ip\<close> with that action in the run.
\<close>

definition served ::
  "((string \<rightharpoonup> 'b) \<Rightarrow> string \<Rightarrow> int \<Rightarrow> string \<Rightarrow> bool \<times> (string \<rightharpoonup> 'b)) \<Rightarrow> ('b \<Rightarrow> int \<times> nat \<times> nat)
    \<Rightarrow> string \<Rightarrow> nat \<Rightarrow> string \<Rightarrow> nat \<Rightarrow> (string \<rightharpoonup> 'b) \<Rightarrow> string \<Rightarrow> (string \<times> int \<times> string) list
    \<Rightarrow> int \<times> nat \<times> nat \<Rightarrow> bool" where
  "served check view a1 l1 a2 l2 buckets ip reqs w =
    (length (fst (serve check buckets reqs)) = length reqs
     \<and> (\<forall>k < length reqs. fst (reqs ! k) = ip \<longrightarrow>
          fst (serve check buckets reqs) ! k
          = within_limits a1 l1 a2 l2 (snd (snd (reqs ! k)))
              (counting (tally ip a1 (take (Suc k) reqs)) (tally ip a2 (take (Suc k) reqs)) w))
     \<and> map_option view (snd (serve check buckets reqs) ip)
         = Some (counting (tally ip a1 reqs) (tally ip a2 reqs) w))"

text \<open>
  A request at \<open>t'\<close> is admitted and leaves a window that starts at \<open>t'\<close> and has counted
  this request alone.
\<close>

definition reopens ::
  "((string \<rightharpoonup> 'b) \<Rightarrow> string \<Rightarrow> int \<Rightarrow> string \<Rightarrow> bool \<times> (string \<rightharpoonup> 'b)) \<Rightarrow> ('b \<Rightarrow> int \<times> nat \<times> nat)
    \<Rightarrow> string \<Rightarrow> string \<Rightarrow> (string \<rightharpoonup> 'b) \<Rightarrow> string \<Rightarrow> int \<Rightarrow> string \<Rightarrow> bool" where
  "reopens check view a1 a2 buckets ip t' ty =
    (fst (check buckets ip t' ty)
     \<and> map_option view (snd (check buckets ip t' ty) ip)
         = Some (t', if ty = a1 then 1 else 0, if ty = a2 then 1 else 0))"

text \<open>
  A handler is guarded by a limiter: it answers 429 with the rate-limit error exactly
  when the verdict is \<open>False\<close>, and then nothing but the bucket map has changed.
\<close>

definition guarded :: "response \<times> server \<Rightarrow> bool \<Rightarrow> server \<Rightarrow> bool" where
  "guarded result ok rejected =
    ((fst result = (429, ErrorBody ''Rate limit exceeded'')) = (\<not> ok)
     \<and> (\<not> ok \<longrightarrow> snd result = rejected))"

text \<open>The event is a POST /otm to which \<^verbatim>\<open>generateOtmId()\<close> gives the id \<open>i\<close>.\<close>

fun creates_otm :: "string \<Rightarrow> event \<Rightarrow> bool" where
  "creates_otm i (OtmCreate ip now parsed newId) = (newId = i)"
| "creates_otm i _ = False"

text \<open>The event is a GET /otm/\<open>i\<close>.\<close>

fun reads_otm :: "string \<Rightarrow> event \<Rightarrow> bool" where
  "reads_otm i (OtmRead ip now ident) = (ident = i)"
| "reads_otm i _ = False"

text \<open>
  What a GET /otm/\<open>i\<close> answers once the entry is gone: 404 when the limiter admits the
  request, 429 when it does not. For any other event the value is \<open>None\<close>.
\<close>

fun gone_answer :: "server \<Rightarrow> event \<Rightarrow> response option" where
  "gone_answer s (OtmRead ip now ident) =
     Some (if fst (checkRateLimit (rateBuckets s) ip now ''get-otm'')
           then (404, UsedBody) else (429, ErrorBody ''Rate limit exceeded''))"
| "gone_answer s _ = None"

text \<open>
  The event does not come too late for the invite entry stored under \<open>i\<close>: a get or a
  claim of \<open>i\<close> not after \<open>expiresAt\<close>, a sweep not more than 24 hours after \<open>createdAt\<close>.
\<close>

fun in_lifetime :: "invite_entry \<Rightarrow> string \<Rightarrow> event \<Rightarrow> bool" where
  "in_lifetime entry i (InviteGet now inviteId) = (inviteId \<noteq> i \<or> \<not> js_gt now (expiresAt entry))"
| "in_lifetime entry i (InviteClaim ip now inviteId parsed) =
     (inviteId \<noteq> i \<or> \<not> js_gt now (expiresAt entry))"
| "in_lifetime entry i (InviteSweep now) = (\<not> now - createdAt entry > CHAT_INVITE_TTL_MS)"
| "in_lifetime entry i _ = True"

text \<open>
  What a claim of the invite \<open>i\<close> answers while the entry is claimed and in its lifetime.
  For any other event the value is \<open>None\<close>.
\<close>

fun claimed_answer :: "server \<Rightarrow> string \<Rightarrow> event \<Rightarrow> response option" where
  "claimed_answer s i (InviteClaim ip now inviteId parsed) =
     (if inviteId \<noteq> i then None
      else Some (if \<not> fst (checkChatRateLimit (chatRateBuckets s) ip now ''invite'')
                 then (429, ErrorBody ''Rate limit exceeded'')
                 else case parsed of
                        None \<Rightarrow> (400, ErrorBody ''Invalid JSON'')
                      | Some bundle \<Rightarrow>
                          if bundle = [] then (400, ErrorBody ''Missing claimerBundle'')
                          else (409, ErrorBody ''Invite already claimed'')))"
| "claimed_answer s i _ = None"

text \<open>
  The shape of the burn control frame in the words of the interface: the text parses to
  an object whose \<open>type\<close> is "control", whose \<open>action\<close> is "burnRoom" and whose \<open>roomId\<close> is
  this room's id.
\<close>

definition burn_shape :: "json option \<Rightarrow> string \<Rightarrow> bool" where
  "burn_shape parsed roomId =
    (case parsed of
       Some (JObj props) \<Rightarrow>
         map_of props ''type'' = Some (JStr ''control'')
         \<and> map_of props ''action'' = Some (JStr ''burnRoom'')
         \<and> map_of props ''roomId'' = Some (JStr roomId)
     | _ \<Rightarrow> False)"

text \<open>The messages queued for a fingerprint, none when it has no mailbox.\<close>

definition mailbox :: "server \<Rightarrow> string \<Rightarrow> message list" where
  "mailbox s fingerprint = (case chatMessageStore s fingerprint of None \<Rightarrow> [] | Some ms \<Rightarrow> ms)"

text \<open>
  Example inputs: a stand-in for \<^verbatim>\<open>JSON.parse\<close> that knows the burn frames of two rooms
  (and fails on every other text), a room with two sockets, a mailbox with one
  message, and two mailboxes with three messages and one.
\<close>

definition example_parse :: "string \<Rightarrow> json option" where
  "example_parse received =
    (if received = ''burn r1''
     then Some (JObj [(''type'', JStr ''control''), (''action'', JStr ''burnRoom''), (''roomId'', JStr ''r1'')])
     else if received = ''burn r2''
     then Some (JObj [(''type'', JStr ''control''), (''action'', JStr ''burnRoom''), (''roomId'', JStr ''r2'')])
     else None)"

definition two_in_r1 :: server where
  "two_in_r1 = snd (run example_parse initial [WsConnection 1 ''r1'' [], WsConnection 2 ''r1'' []])"

definition one_queued :: server where
  "one_queued = snd (chat_message_send initial ''10.0.0.1'' 100 (Some (MsgReq ''fpB'' ''fpA'' ''E1'' ''m1'')))"

definition three_queued :: server where
  "three_queued = initial\<lparr>chatMessageStore :=
     [''fpB'' \<mapsto> [\<lparr>msg_id = ''m1'', msg_from = ''fpA'', msg_payload = ''E1'', msg_timestamp = 1\<rparr>,
                   \<lparr>msg_id = ''m2'', msg_from = ''fpA'', msg_payload = ''E2'', msg_timestamp = 2\<rparr>,
                   \<lparr>msg_id = ''m3'', msg_from = ''fpC'', msg_payload = ''E3'', msg_timestamp = 3\<rparr>],
      ''fpC'' \<mapsto> [\<lparr>msg_id = ''m1'', msg_from = ''fpA'', msg_payload = ''E4'', msg_timestamp = 4\<rparr>]]\<rparr>"

section \<open>Proof tools\<close>

lemmas handler_defs = otm_create_def otm_read_def otm_sweep_def file_upload_def file_download_def
  file_sweep_def chat_invite_create_def chat_invite_create_end_def chat_invite_get_def
  chat_invite_claim_def chat_invite_claim_end_def invite_sweep_def chat_message_send_def
  chat_message_send_end_def chat_messages_ack_def ack_messages_def message_sweep_def
  on_connection_def chat_socket_message_def chat_socket_close_def room_message_def room_close_def
  timeout_fires_def getRoom_def scheduleDestruction_def clearTimeout_def send_each_def
  broadcastPresence_def incrementMetric_def

lemmas handler_splits = option.splits json.splits if_splits ws_data.splits invite_req.splits
  msg_req.splits ack_req.splits

lemmas eval_defs = initial_def rate_limited_def checkRateLimit_def checkFileRateLimit_def
  checkChatRateLimit_def RATE_WINDOW_MS_def FILE_RATE_WINDOW_MS_def CHAT_RATE_WINDOW_MS_def
  MAX_POST_OTM_PER_WINDOW_def MAX_GET_OTM_PER_WINDOW_def MAX_POST_FILE_PER_WINDOW_def
  MAX_GET_FILE_PER_WINDOW_def MAX_CHAT_INVITE_PER_WINDOW_def MAX_CHAT_MESSAGE_PER_WINDOW_def
  OTM_TTL_MS_def FILE_TTL_MS_def CHAT_INVITE_TTL_MS_def CHAT_MESSAGE_TTL_MS_def js_gt_def
  ws_send_def ws_close_def Let_def

section \<open>Runs\<close>

lemma run_length: "length (fst (run parse s es)) = length es"
  by (induction es arbitrary: s) (simp_all add: split_beta)

lemma run_nth:
  "k < length es \<Longrightarrow>
   fst (run parse s es) ! k = fst (step parse (snd (run parse s (take k es))) (es ! k))"
proof (induction es arbitrary: s k)
  case Nil
  then show ?case by simp
next
  case (Cons e es)
  show ?case
  proof (cases k)
    case 0
    then show ?thesis by (simp add: split_beta)
  next
    case (Suc j)
    with Cons.prems have "j < length es" by simp
    from Cons.IH [OF this] Suc show ?thesis by (simp add: split_beta)
  qed
qed

section \<open>One-time read\<close>

lemma otm_absent_step:
  assumes "otmStore s i = None" and "\<not> creates_otm i e"
  shows "otmStore (snd (step parse s e)) i = None"
  using assms
  by (cases e) (auto simp: handler_defs Let_def split_beta split: handler_splits)

lemma otm_absent_run:
  assumes "otmStore s i = None" and "\<forall>e \<in> set es. \<not> creates_otm i e"
  shows "otmStore (snd (run parse s es)) i = None"
  using assms
proof (induction es arbitrary: s)
  case Nil
  then show ?case by simp
next
  case (Cons e es)
  have "otmStore (snd (step parse s e)) i = None"
    using Cons.prems by (intro otm_absent_step) simp_all
  then have "otmStore (snd (run parse (snd (step parse s e)) es)) i = None"
    using Cons.prems by (intro Cons.IH) simp_all
  then show ?case by (simp add: split_beta)
qed

lemma otm_read_gone:
  assumes "otmStore s i = None" and "reads_otm i e"
  shows "fst (step parse s e) = gone_answer s e"
  using assms
  by (cases e) (simp_all add: otm_read_def rate_limited_def split_beta Let_def)

lemma gone_answer_cases:
  assumes "reads_otm i e"
  shows "gone_answer s e = Some (404, UsedBody)
       \<or> gone_answer s e = Some (429, ErrorBody ''Rate limit exceeded'')"
  using assms by (cases e) simp_all

lemma otm_read_served:
  assumes "otm_read s ip now i = ((200, b), s')"
  shows "otmStore s' i = None
       \<and> (\<exists>entry. otmStore s i = Some entry \<and> b = CiphertextBody (ciphertext entry)
                  \<and> \<not> now - createdAt entry > OTM_TTL_MS)"
  using assms
  by (auto simp: otm_read_def rate_limited_def split_beta Let_def split: option.splits if_splits)

text \<open>
  Claim C1, as amended. Once a GET /otm/\<open>i\<close> has answered 200 with the stored ciphertext,
  the entry is gone and stays gone through any later events in which
  \<^verbatim>\<open>generateOtmId()\<close> does not return \<open>i\<close> again; every later GET /otm/\<open>i\<close> answers
  404 \<open>{used:true}\<close> when the rate limiter admits it and 429 when it does not; none
  answers 200.
\<close>

theorem otm_read_at_most_once:
  assumes served: "step parse s (OtmRead ip now i) = (Some (200, CiphertextBody c), s')"
    and fresh: "\<forall>e \<in> set es. \<not> creates_otm i e"
  shows "(\<exists>entry. otmStore s i = Some entry \<and> ciphertext entry = c)
       \<and> otmStore s' i = None
       \<and> otmStore (snd (run parse s' es)) i = None
       \<and> (\<forall>k < length es. reads_otm i (es ! k) \<longrightarrow>
             fst (run parse s' es) ! k = gone_answer (snd (run parse s' (take k es))) (es ! k))
       \<and> (\<forall>k < length es. reads_otm i (es ! k) \<longrightarrow>
             fst (run parse s' es) ! k = Some (404, UsedBody)
             \<or> fst (run parse s' es) ! k = Some (429, ErrorBody ''Rate limit exceeded''))"
proof -
  from served have rd: "otm_read s ip now i = ((200, CiphertextBody c), s')"
    by (cases "otm_read s ip now i") simp
  from otm_read_served [OF rd] have gone: "otmStore s' i = None"
    and was: "\<exists>entry. otmStore s i = Some entry \<and> ciphertext entry = c"
    by auto
  have after: "otmStore (snd (run parse s' es)) i = None"
    using gone fresh by (rule otm_absent_run)
  have later: "fst (run parse s' es) ! k = gone_answer (snd (run parse s' (take k es))) (es ! k)"
    if k: "k < length es" and r: "reads_otm i (es ! k)" for k
  proof -
    have "\<forall>e \<in> set (take k es). \<not> creates_otm i e"
      using fresh by (meson in_set_takeD)
    with gone have "otmStore (snd (run parse s' (take k es))) i = None"
      by (rule otm_absent_run)
    then have "fst (step parse (snd (run parse s' (take k es))) (es ! k))
               = gone_answer (snd (run parse s' (take k es))) (es ! k)"
      using r by (rule otm_read_gone)
    then show ?thesis using run_nth [OF k] by simp
  qed
  have either: "fst (run parse s' es) ! k = Some (404, UsedBody)
             \<or> fst (run parse s' es) ! k = Some (429, ErrorBody ''Rate limit exceeded'')"
    if k: "k < length es" and r: "reads_otm i (es ! k)" for k
    using later [OF k r] gone_answer_cases [OF r] by simp
  from was gone after later either show ?thesis by blast
qed

text \<open>
  The theorem after a create and a first read: a second client's read, after a sweep,
  answers 404.
\<close>

theorem otm_read_at_most_once_witness:
  "fst (run (\<lambda>_. None)
         (snd (step (\<lambda>_. None)
                (snd (otm_create initial ''10.0.0.1'' 0 (Some ''A'') ''q''))
                (OtmRead ''10.0.0.1'' 1000 ''q'')))
         [OtmSweep 2000, OtmRead ''10.0.0.2'' 3000 ''q'']) ! 1
   = Some (404, UsedBody)"
proof -
  let ?p = "\<lambda>_ :: string. None :: json option"
  let ?s = "snd (otm_create initial ''10.0.0.1'' 0 (Some ''A'') ''q'')"
  let ?s' = "snd (step ?p ?s (OtmRead ''10.0.0.1'' 1000 ''q''))"
  let ?es = "[OtmSweep 2000, OtmRead ''10.0.0.2'' 3000 ''q'']"
  have served: "step ?p ?s (OtmRead ''10.0.0.1'' 1000 ''q'') = (Some (200, CiphertextBody ''A''), ?s')"
    by (simp add: initial_def otm_create_def otm_read_def checkRateLimit_def incrementMetric_def
        Let_def RATE_WINDOW_MS_def MAX_POST_OTM_PER_WINDOW_def MAX_GET_OTM_PER_WINDOW_def
        OTM_TTL_MS_def rate_limited_def)
  have fresh: "\<forall>e \<in> set ?es. \<not> creates_otm ''q'' e" by simp
  from otm_read_at_most_once [OF served fresh]
  have "fst (run ?p ?s' ?es) ! 1 = gone_answer (snd (run ?p ?s' (take 1 ?es))) (?es ! 1)"
    by simp
  then show ?thesis
    by (simp add: initial_def otm_create_def otm_read_def otm_sweep_def checkRateLimit_def
        incrementMetric_def Let_def RATE_WINDOW_MS_def MAX_POST_OTM_PER_WINDOW_def
        MAX_GET_OTM_PER_WINDOW_def OTM_TTL_MS_def rate_limited_def)
qed

text \<open>
  Claim C1 as stated fails: of 61 reads of one id by one client within a minute, the
  first answers 200, the next 59 answer 404 \<open>{used:true}\<close>, and the last answers 429
  with the rate-limit error, not 404 \<open>{used:true}\<close>.
\<close>

theorem otm_read_rate_limited_counterexample:
  "map (\<lambda>k. fst (run (\<lambda>_. None) initial
         (OtmCreate ''10.0.0.1'' 0 (Some ''A'') ''q'' # replicate 61 (OtmRead ''10.0.0.1'' 1000 ''q''))) ! k)
     [0, 1, 2, 60, 61]
   = [Some (201, IdBody ''q''),
      Some (200, CiphertextBody ''A''),
      Some (404, UsedBody),
      Some (404, UsedBody),
      Some (429, ErrorBody ''Rate limit exceeded'')]"
proof -
  have "fst (run (\<lambda>_. None) initial
         (OtmCreate ''10.0.0.1'' 0 (Some ''A'') ''q'' # replicate 61 (OtmRead ''10.0.0.1'' 1000 ''q'')))
      = Some (201, IdBody ''q'') # Some (200, CiphertextBody ''A'')
        # replicate 59 (Some (404, UsedBody)) @ [Some (429, ErrorBody ''Rate limit exceeded'')]"
    by (simp add: otm_create_def otm_read_def incrementMetric_def eval_defs numeral_eq_Suc)
  then show ?thesis by (simp add: numeral_eq_Suc nth_append)
qed

section \<open>Rate limiting\<close>

lemma tally_Cons:
  "tally ip a ((ip', t, ty) # rs) = (if ip' = ip \<and> ty = a then 1 else 0) + tally ip a rs"
  by (simp add: tally_def)

lemma tally_Nil [simp]: "tally ip a [] = 0"
  by (simp add: tally_def)

lemma counting_counting:
  "counting m1 m2 (counting i1 i2 w) = counting (i1 + m1) (i2 + m2) w"
  by (cases w) (simp add: counting_def)

lemma counting_zero [simp]: "counting 0 0 w = w"
  by (cases w) (simp add: counting_def)

lemma fst_counting [simp]: "fst (counting m1 m2 w) = fst w"
  by (cases w) (simp add: counting_def)

lemma window_at_kept:
  "now - fst w \<le> 60 * 1000 \<Longrightarrow> window_at (Some w) now = w"
  by (cases w) (simp add: window_at_def)

lemma served_Nil:
  "map_option view (buckets ip) = Some w \<Longrightarrow> served check view a1 l1 a2 l2 buckets ip [] w"
  by (simp add: served_def)

lemma served_Cons_same:
  assumes ok: "fst (check buckets ip t ty)
      = within_limits a1 l1 a2 l2 ty (counting (if ty = a1 then 1 else 0) (if ty = a2 then 1 else 0) w)"
    and rest: "served check view a1 l1 a2 l2 (snd (check buckets ip t ty)) ip rs
      (counting (if ty = a1 then 1 else 0) (if ty = a2 then 1 else 0) w)"
  shows "served check view a1 l1 a2 l2 buckets ip ((ip, t, ty) # rs) w"
proof -
  let ?B = "snd (check buckets ip t ty)"
  let ?w = "counting (if ty = a1 then 1 else 0) (if ty = a2 then 1 else 0) w"
  have sv: "serve check buckets ((ip, t, ty) # rs)
      = (fst (check buckets ip t ty) # fst (serve check ?B rs), snd (serve check ?B rs))"
    by (simp add: split_beta)
  have len: "length (fst (serve check ?B rs)) = length rs"
    and each: "\<And>k. k < length rs \<Longrightarrow> fst (rs ! k) = ip \<Longrightarrow>
          fst (serve check ?B rs) ! k
          = within_limits a1 l1 a2 l2 (snd (snd (rs ! k)))
              (counting (tally ip a1 (take (Suc k) rs)) (tally ip a2 (take (Suc k) rs)) ?w)"
    and final: "map_option view (snd (serve check ?B rs) ip)
         = Some (counting (tally ip a1 rs) (tally ip a2 rs) ?w)"
    using rest unfolding served_def by blast+
  have "fst (serve check buckets ((ip, t, ty) # rs)) ! k
          = within_limits a1 l1 a2 l2 (snd (snd (((ip, t, ty) # rs) ! k)))
              (counting (tally ip a1 (take (Suc k) ((ip, t, ty) # rs)))
                 (tally ip a2 (take (Suc k) ((ip, t, ty) # rs))) w)"
    if "k < length ((ip, t, ty) # rs)" "fst (((ip, t, ty) # rs) ! k) = ip" for k
  proof (cases k)
    case 0
    then show ?thesis unfolding sv using ok by (simp add: tally_Cons)
  next
    case (Suc j)
    with that have "j < length rs" "fst (rs ! j) = ip" by simp_all
    from each [OF this] show ?thesis
      unfolding sv Suc by (simp add: tally_Cons counting_counting)
  qed
  moreover have "length (fst (serve check buckets ((ip, t, ty) # rs))) = length ((ip, t, ty) # rs)"
    unfolding sv using len by simp
  moreover have "map_option view (snd (serve check buckets ((ip, t, ty) # rs)) ip)
         = Some (counting (tally ip a1 ((ip, t, ty) # rs)) (tally ip a2 ((ip, t, ty) # rs)) w)"
    unfolding sv using final by (simp add: tally_Cons counting_counting)
  ultimately show ?thesis
    unfolding served_def by blast
qed

lemma served_Cons_other:
  assumes other: "ip' \<noteq> ip"
    and rest: "served check view a1 l1 a2 l2 (snd (check buckets ip' t ty)) ip rs w"
  shows "served check view a1 l1 a2 l2 buckets ip ((ip', t, ty) # rs) w"
proof -
  let ?B = "snd (check buckets ip' t ty)"
  have sv: "serve check buckets ((ip', t, ty) # rs)
      = (fst (check buckets ip' t ty) # fst (serve check ?B rs), snd (serve check ?B rs))"
    by (simp add: split_beta)
  have len: "length (fst (serve check ?B rs)) = length rs"
    and each: "\<And>k. k < length rs \<Longrightarrow> fst (rs ! k) = ip \<Longrightarrow>
          fst (serve check ?B rs) ! k
          = within_limits a1 l1 a2 l2 (snd (snd (rs ! k)))
              (counting (tally ip a1 (take (Suc k) rs)) (tally ip a2 (take (Suc k) rs)) w)"
    and final: "map_option view (snd (serve check ?B rs) ip)
         = Some (counting (tally ip a1 rs) (tally ip a2 rs) w)"
    using rest unfolding served_def by blast+
  have "fst (serve check buckets ((ip', t, ty) # rs)) ! k
          = within_limits a1 l1 a2 l2 (snd (snd (((ip', t, ty) # rs) ! k)))
              (counting (tally ip a1 (take (Suc k) ((ip', t, ty) # rs)))
                 (tally ip a2 (take (Suc k) ((ip', t, ty) # rs))) w)"
    if "k < length ((ip', t, ty) # rs)" "fst (((ip', t, ty) # rs) ! k) = ip" for k
  proof (cases k)
    case 0
    then show ?thesis using that other by simp
  next
    case (Suc j)
    with that have "j < length rs" "fst (rs ! j) = ip" by simp_all
    from each [OF this] show ?thesis
      unfolding sv Suc using other by (simp add: tally_Cons)
  qed
  moreover have "length (fst (serve check buckets ((ip', t, ty) # rs))) = length ((ip', t, ty) # rs)"
    unfolding sv using len by simp
  moreover have "map_option view (snd (serve check buckets ((ip', t, ty) # rs)) ip)
         = Some (counting (tally ip a1 ((ip', t, ty) # rs)) (tally ip a2 ((ip', t, ty) # rs)) w)"
    unfolding sv using final other by (simp add: tally_Cons)
  ultimately show ?thesis
    unfolding served_def by blast
qed

lemma step_other:
  assumes "limiter_step check view a1 l1 a2 l2 buckets ip' now ty" and "ip' \<noteq> ip"
  shows "snd (check buckets ip' now ty) ip = buckets ip"
proof -
  have "(snd (check buckets ip' now ty))(ip' := None) = buckets(ip' := None)"
    using assms(1) by (simp add: limiter_step_def Let_def)
  then have "((snd (check buckets ip' now ty))(ip' := None)) ip = (buckets(ip' := None)) ip"
    by (rule arg_cong)
  then show ?thesis using assms(2) by simp
qed

lemma served_kept:
  assumes step: "\<And>bs ip' now ty. limiter_step check view a1 l1 a2 l2 bs ip' now ty"
  shows "map_option view (buckets ip) = Some w \<Longrightarrow> in_window ip (fst w) reqs \<Longrightarrow>
         served check view a1 l1 a2 l2 buckets ip reqs w"
proof (induction reqs arbitrary: buckets w)
  case Nil
  from Nil(1) show ?case by (rule served_Nil)
next
  case (Cons r rs)
  obtain ip' t ty where r: "r = (ip', t, ty)" by (cases r)
  have inw: "in_window ip (fst w) rs"
    using Cons.prems(2) by (simp add: in_window_def)
  show ?case
  proof (cases "ip' = ip")
    case True
    have t: "t - fst w \<le> 60 * 1000"
      using Cons.prems(2) True by (simp add: in_window_def r)
    let ?w = "counting (if ty = a1 then 1 else 0) (if ty = a2 then 1 else 0) w"
    from step [of buckets ip t ty]
    have ok: "fst (check buckets ip t ty) = within_limits a1 l1 a2 l2 ty ?w"
      and kept: "map_option view (snd (check buckets ip t ty) ip) = Some ?w"
      unfolding limiter_step_def Let_def Cons.prems(1) window_at_kept [OF t] by simp_all
    have "served check view a1 l1 a2 l2 (snd (check buckets ip t ty)) ip rs ?w"
      using kept inw by (intro Cons.IH) simp_all
    with ok show ?thesis unfolding r True by (rule served_Cons_same)
  next
    case False
    have "snd (check buckets ip' t ty) ip = buckets ip"
      using step False by (rule step_other)
    then have "served check view a1 l1 a2 l2 (snd (check buckets ip' t ty)) ip rs w"
      using Cons.prems(1) inw by (intro Cons.IH) simp_all
    with False show ?thesis unfolding r by (rule served_Cons_other)
  qed
qed

lemma served_from:
  assumes step: "\<And>bs ip' now ty. limiter_step check view a1 l1 a2 l2 bs ip' now ty"
    and inw: "in_window ip (fst (window_at (map_option view (buckets ip)) t0)) rs"
  shows "served check view a1 l1 a2 l2 buckets ip ((ip, t0, ty0) # rs)
           (window_at (map_option view (buckets ip)) t0)"
proof -
  let ?w0 = "window_at (map_option view (buckets ip)) t0"
  let ?w = "counting (if ty0 = a1 then 1 else 0) (if ty0 = a2 then 1 else 0) ?w0"
  from step [of buckets ip t0 ty0]
  have ok: "fst (check buckets ip t0 ty0) = within_limits a1 l1 a2 l2 ty0 ?w"
    and kept: "map_option view (snd (check buckets ip t0 ty0) ip) = Some ?w"
    unfolding limiter_step_def Let_def by simp_all
  have "served check view a1 l1 a2 l2 (snd (check buckets ip t0 ty0)) ip rs ?w"
    using kept inw by (intro served_kept step) simp_all
  with ok show ?thesis by (rule served_Cons_same)
qed

lemma reopens_late:
  assumes step: "limiter_step check view a1 l1 a2 l2 buckets ip t' ty"
    and kept: "map_option view (buckets ip) = Some w" and late: "t' - fst w > 60 * 1000"
    and lim: "0 < l1" "0 < l2"
  shows "reopens check view a1 a2 buckets ip t' ty"
proof -
  have w: "window_at (Some w) t' = (t', 0, 0)"
    using late by (cases w) (simp add: window_at_def)
  show ?thesis
    using step lim unfolding limiter_step_def Let_def kept w reopens_def
    by (auto simp: counting_def within_limits_def)
qed

lemma checkRateLimit_step:
  "limiter_step checkRateLimit otm_view ''post-otm'' 30 ''get-otm'' 60 buckets ip now ty"
  by (auto simp: limiter_step_def checkRateLimit_def otm_view_def window_at_def counting_def
      within_limits_def Let_def RATE_WINDOW_MS_def MAX_POST_OTM_PER_WINDOW_def
      MAX_GET_OTM_PER_WINDOW_def split: option.splits)

lemma checkFileRateLimit_step:
  "limiter_step checkFileRateLimit file_view ''upload'' 10 ''download'' 30 buckets ip now ty"
  by (auto simp: limiter_step_def checkFileRateLimit_def file_view_def window_at_def counting_def
      within_limits_def Let_def FILE_RATE_WINDOW_MS_def MAX_POST_FILE_PER_WINDOW_def
      MAX_GET_FILE_PER_WINDOW_def split: option.splits)

lemma checkChatRateLimit_step:
  "limiter_step checkChatRateLimit chat_view ''invite'' 10 ''message'' 60 buckets ip now ty"
  by (auto simp: limiter_step_def checkChatRateLimit_def chat_view_def window_at_def counting_def
      within_limits_def Let_def CHAT_RATE_WINDOW_MS_def MAX_CHAT_INVITE_PER_WINDOW_def
      MAX_CHAT_MESSAGE_PER_WINDOW_def split: option.splits)

lemma otm_create_guarded:
  "guarded (otm_create s ip now parsed newId) (fst (checkRateLimit (rateBuckets s) ip now ''post-otm''))
     (s\<lparr>rateBuckets := snd (checkRateLimit (rateBuckets s) ip now ''post-otm'')\<rparr>)
   \<and> rateBuckets (snd (otm_create s ip now parsed newId))
       = snd (checkRateLimit (rateBuckets s) ip now ''post-otm'')"
  by (auto simp: guarded_def otm_create_def rate_limited_def split_beta incrementMetric_def Let_def
      split: option.splits)

lemma otm_read_guarded:
  "guarded (otm_read s ip now ident) (fst (checkRateLimit (rateBuckets s) ip now ''get-otm''))
     (s\<lparr>rateBuckets := snd (checkRateLimit (rateBuckets s) ip now ''get-otm'')\<rparr>)
   \<and> rateBuckets (snd (otm_read s ip now ident))
       = snd (checkRateLimit (rateBuckets s) ip now ''get-otm'')"
  by (auto simp: guarded_def otm_read_def rate_limited_def split_beta Let_def
      split: option.splits)

lemma file_upload_guarded:
  "guarded (file_upload s ip now bytes newId) (fst (checkFileRateLimit (fileRateBuckets s) ip now ''upload''))
     (s\<lparr>fileRateBuckets := snd (checkFileRateLimit (fileRateBuckets s) ip now ''upload'')\<rparr>)
   \<and> fileRateBuckets (snd (file_upload s ip now bytes newId))
       = snd (checkFileRateLimit (fileRateBuckets s) ip now ''upload'')"
  by (auto simp: guarded_def file_upload_def rate_limited_def split_beta incrementMetric_def Let_def)

lemma file_download_guarded:
  "guarded (file_download s ip now ident) (fst (checkFileRateLimit (fileRateBuckets s) ip now ''download''))
     (s\<lparr>fileRateBuckets := snd (checkFileRateLimit (fileRateBuckets s) ip now ''download'')\<rparr>)
   \<and> fileRateBuckets (snd (file_download s ip now ident))
       = snd (checkFileRateLimit (fileRateBuckets s) ip now ''download'')"
  by (auto simp: guarded_def file_download_def rate_limited_def split_beta Let_def
      split: option.splits)

lemma invite_create_end_frame:
  "fst (chat_invite_create_end s now parsed) \<noteq> (429, ErrorBody ''Rate limit exceeded'')
   \<and> chatRateBuckets (snd (chat_invite_create_end s now parsed)) = chatRateBuckets s"
  by (auto simp: chat_invite_create_end_def incrementMetric_def Let_def
      split: option.splits invite_req.splits)

lemma invite_claim_end_frame:
  "fst (chat_invite_claim_end s now inviteId parsed) \<noteq> (429, ErrorBody ''Rate limit exceeded'')
   \<and> chatRateBuckets (snd (chat_invite_claim_end s now inviteId parsed)) = chatRateBuckets s"
  by (auto simp: chat_invite_claim_end_def Let_def split: option.splits)

lemma message_send_end_frame:
  "fst (chat_message_send_end s now parsed) \<noteq> (429, ErrorBody ''Rate limit exceeded'')
   \<and> chatRateBuckets (snd (chat_message_send_end s now parsed)) = chatRateBuckets s"
  by (auto simp: chat_message_send_end_def incrementMetric_def Let_def
      split: option.splits msg_req.splits)

lemma chat_invite_create_guarded:
  "guarded (chat_invite_create s ip now parsed) (fst (checkChatRateLimit (chatRateBuckets s) ip now ''invite''))
     (s\<lparr>chatRateBuckets := snd (checkChatRateLimit (chatRateBuckets s) ip now ''invite'')\<rparr>)
   \<and> chatRateBuckets (snd (chat_invite_create s ip now parsed))
       = snd (checkChatRateLimit (chatRateBuckets s) ip now ''invite'')"
  by (simp add: invite_create_end_frame guarded_def Let_def chat_invite_create_def rate_limited_def split_beta)

lemma chat_invite_claim_guarded:
  "guarded (chat_invite_claim s ip now inviteId parsed) (fst (checkChatRateLimit (chatRateBuckets s) ip now ''invite''))
     (s\<lparr>chatRateBuckets := snd (checkChatRateLimit (chatRateBuckets s) ip now ''invite'')\<rparr>)
   \<and> chatRateBuckets (snd (chat_invite_claim s ip now inviteId parsed))
       = snd (checkChatRateLimit (chatRateBuckets s) ip now ''invite'')"
  by (simp add: invite_claim_end_frame guarded_def Let_def chat_invite_claim_def rate_limited_def split_beta)

lemma chat_message_send_guarded:
  "guarded (chat_message_send s ip now parsed) (fst (checkChatRateLimit (chatRateBuckets s) ip now ''message''))
     (s\<lparr>chatRateBuckets := snd (checkChatRateLimit (chatRateBuckets s) ip now ''message'')\<rparr>)
   \<and> chatRateBuckets (snd (chat_message_send s ip now parsed))
       = snd (checkChatRateLimit (chatRateBuckets s) ip now ''message'')"
  by (simp add: message_send_end_frame guarded_def Let_def chat_message_send_def rate_limited_def split_beta)

text \<open>
  Claim C8, with the counter as the code keeps it. Each of the three limiters keeps for
  a client the start of a window and one counter per action. A request falls in the
  kept window, or opens a new one when the client has no bucket or the kept window
  started more than 60 s before; the request is counted in it, whatever the verdict;
  the verdict is whether the counter of its action is then at most the threshold (OTM
  post 30, get 60; file upload 10, download 30; chat invite 10, message 60); the bucket
  of no other client changes. So through a run in which the requests of a client stay
  within 60 s of the start of the window of its first request, whatever the actions and
  the other clients in between, the start of the window stays, the counter of an action
  is the number of requests of the client with that action, admitted or rejected, and a
  request is admitted exactly when that number is within the threshold; a request more
  than 60 s after the start is admitted again and opens a new window that has counted
  it alone. Every handler answers 429 with the rate-limit error exactly when its
  limiter rejects the request, passes once through its limiter, and changes nothing
  else when it rejects.
\<close>

theorem rate_limit_fixed_window:
  fixes rb :: "string \<rightharpoonup> otm_bucket" and fb :: "string \<rightharpoonup> file_bucket"
    and cb :: "string \<rightharpoonup> chat_bucket"
  shows
    "limiter_step checkRateLimit otm_view ''post-otm'' 30 ''get-otm'' 60 rb ip now ty
     \<and> limiter_step checkFileRateLimit file_view ''upload'' 10 ''download'' 30 fb ip now ty
     \<and> limiter_step checkChatRateLimit chat_view ''invite'' 10 ''message'' 60 cb ip now ty
     \<and> (in_window ip (fst (window_at (map_option otm_view (rb ip)) t0)) rs \<longrightarrow>
          served checkRateLimit otm_view ''post-otm'' 30 ''get-otm'' 60 rb ip ((ip, t0, ty0) # rs)
            (window_at (map_option otm_view (rb ip)) t0))
     \<and> (in_window ip (fst (window_at (map_option file_view (fb ip)) t0)) rs \<longrightarrow>
          served checkFileRateLimit file_view ''upload'' 10 ''download'' 30 fb ip ((ip, t0, ty0) # rs)
            (window_at (map_option file_view (fb ip)) t0))
     \<and> (in_window ip (fst (window_at (map_option chat_view (cb ip)) t0)) rs \<longrightarrow>
          served checkChatRateLimit chat_view ''invite'' 10 ''message'' 60 cb ip ((ip, t0, ty0) # rs)
            (window_at (map_option chat_view (cb ip)) t0))
     \<and> (in_window ip (fst (window_at (map_option otm_view (rb ip)) t0)) rs
          \<and> t' - fst (window_at (map_option otm_view (rb ip)) t0) > 60 * 1000 \<longrightarrow>
          reopens checkRateLimit otm_view ''post-otm'' ''get-otm''
            (snd (serve checkRateLimit rb ((ip, t0, ty0) # rs))) ip t' ty')
     \<and> (in_window ip (fst (window_at (map_option file_view (fb ip)) t0)) rs
          \<and> t' - fst (window_at (map_option file_view (fb ip)) t0) > 60 * 1000 \<longrightarrow>
          reopens checkFileRateLimit file_view ''upload'' ''download''
            (snd (serve checkFileRateLimit fb ((ip, t0, ty0) # rs))) ip t' ty')
     \<and> (in_window ip (fst (window_at (map_option chat_view (cb ip)) t0)) rs
          \<and> t' - fst (window_at (map_option chat_view (cb ip)) t0) > 60 * 1000 \<longrightarrow>
          reopens checkChatRateLimit chat_view ''invite'' ''message''
            (snd (serve checkChatRateLimit cb ((ip, t0, ty0) # rs))) ip t' ty')
     \<and> guarded (otm_create s ip now otm_body newId)
          (fst (checkRateLimit (rateBuckets s) ip now ''post-otm''))
          (s\<lparr>rateBuckets := snd (checkRateLimit (rateBuckets s) ip now ''post-otm'')\<rparr>)
     \<and> rateBuckets (snd (otm_create s ip now otm_body newId))
         = snd (checkRateLimit (rateBuckets s) ip now ''post-otm'')
     \<and> guarded (otm_read s ip now ident)
          (fst (checkRateLimit (rateBuckets s) ip now ''get-otm''))
          (s\<lparr>rateBuckets := snd (checkRateLimit (rateBuckets s) ip now ''get-otm'')\<rparr>)
     \<and> rateBuckets (snd (otm_read s ip now ident))
         = snd (checkRateLimit (rateBuckets s) ip now ''get-otm'')
     \<and> guarded (file_upload s ip now bytes newId)
          (fst (checkFileRateLimit (fileRateBuckets s) ip now ''upload''))
          (s\<lparr>fileRateBuckets := snd (checkFileRateLimit (fileRateBuckets s) ip now ''upload'')\<rparr>)
     \<and> fileRateBuckets (snd (file_upload s ip now bytes newId))
         = snd (checkFileRateLimit (fileRateBuckets s) ip now ''upload'')
     \<and> guarded (file_download s ip now ident)
          (fst (checkFileRateLimit (fileRateBuckets s) ip now ''download''))
          (s\<lparr>fileRateBuckets := snd (checkFileRateLimit (fileRateBuckets s) ip now ''download'')\<rparr>)
     \<and> fileRateBuckets (snd (file_download s ip now ident))
         = snd (checkFileRateLimit (fileRateBuckets s) ip now ''download'')
     \<and> guarded (chat_invite_create s ip now invite_body)
          (fst (checkChatRateLimit (chatRateBuckets s) ip now ''invite''))
          (s\<lparr>chatRateBuckets := snd (checkChatRateLimit (chatRateBuckets s) ip now ''invite'')\<rparr>)
     \<and> chatRateBuckets (snd (chat_invite_create s ip now invite_body))
         = snd (checkChatRateLimit (chatRateBuckets s) ip now ''invite'')
     \<and> guarded (chat_invite_claim s ip now ident claim_body)
          (fst (checkChatRateLimit (chatRateBuckets s) ip now ''invite''))
          (s\<lparr>chatRateBuckets := snd (checkChatRateLimit (chatRateBuckets s) ip now ''invite'')\<rparr>)
     \<and> chatRateBuckets (snd (chat_invite_claim s ip now ident claim_body))
         = snd (checkChatRateLimit (chatRateBuckets s) ip now ''invite'')
     \<and> guarded (chat_message_send s ip now msg_body)
          (fst (checkChatRateLimit (chatRateBuckets s) ip now ''message''))
          (s\<lparr>chatRateBuckets := snd (checkChatRateLimit (chatRateBuckets s) ip now ''message'')\<rparr>)
     \<and> chatRateBuckets (snd (chat_message_send s ip now msg_body))
         = snd (checkChatRateLimit (chatRateBuckets s) ip now ''message'')"
proof -
  have run_otm: "served checkRateLimit otm_view ''post-otm'' 30 ''get-otm'' 60 rb ip ((ip, t0, ty0) # rs)
            (window_at (map_option otm_view (rb ip)) t0)"
    if "in_window ip (fst (window_at (map_option otm_view (rb ip)) t0)) rs"
    using checkRateLimit_step that by (rule served_from)
  have run_file: "served checkFileRateLimit file_view ''upload'' 10 ''download'' 30 fb ip ((ip, t0, ty0) # rs)
            (window_at (map_option file_view (fb ip)) t0)"
    if "in_window ip (fst (window_at (map_option file_view (fb ip)) t0)) rs"
    using checkFileRateLimit_step that by (rule served_from)
  have run_chat: "served checkChatRateLimit chat_view ''invite'' 10 ''message'' 60 cb ip ((ip, t0, ty0) # rs)
            (window_at (map_option chat_view (cb ip)) t0)"
    if "in_window ip (fst (window_at (map_option chat_view (cb ip)) t0)) rs"
    using checkChatRateLimit_step that by (rule served_from)
  have again_otm: "reopens checkRateLimit otm_view ''post-otm'' ''get-otm''
            (snd (serve checkRateLimit rb ((ip, t0, ty0) # rs))) ip t' ty'"
    if "in_window ip (fst (window_at (map_option otm_view (rb ip)) t0)) rs"
      and "t' - fst (window_at (map_option otm_view (rb ip)) t0) > 60 * 1000"
  proof (rule reopens_late [OF checkRateLimit_step])
    show "map_option otm_view (snd (serve checkRateLimit rb ((ip, t0, ty0) # rs)) ip)
        = Some (counting (tally ip ''post-otm'' ((ip, t0, ty0) # rs)) (tally ip ''get-otm'' ((ip, t0, ty0) # rs))
            (window_at (map_option otm_view (rb ip)) t0))"
      using run_otm [OF that(1)] unfolding served_def by (elim conjE)
  qed (use that(2) in simp_all)
  have again_file: "reopens checkFileRateLimit file_view ''upload'' ''download''
            (snd (serve checkFileRateLimit fb ((ip, t0, ty0) # rs))) ip t' ty'"
    if "in_window ip (fst (window_at (map_option file_view (fb ip)) t0)) rs"
      and "t' - fst (window_at (map_option file_view (fb ip)) t0) > 60 * 1000"
  proof (rule reopens_late [OF checkFileRateLimit_step])
    show "map_option file_view (snd (serve checkFileRateLimit fb ((ip, t0, ty0) # rs)) ip)
        = Some (counting (tally ip ''upload'' ((ip, t0, ty0) # rs)) (tally ip ''download'' ((ip, t0, ty0) # rs))
            (window_at (map_option file_view (fb ip)) t0))"
      using run_file [OF that(1)] unfolding served_def by (elim conjE)
  qed (use that(2) in simp_all)
  have again_chat: "reopens checkChatRateLimit chat_view ''invite'' ''message''
            (snd (serve checkChatRateLimit cb ((ip, t0, ty0) # rs))) ip t' ty'"
    if "in_window ip (fst (window_at (map_option chat_view (cb ip)) t0)) rs"
      and "t' - fst (window_at (map_option chat_view (cb ip)) t0) > 60 * 1000"
  proof (rule reopens_late [OF checkChatRateLimit_step])
    show "map_option chat_view (snd (serve checkChatRateLimit cb ((ip, t0, ty0) # rs)) ip)
        = Some (counting (tally ip ''invite'' ((ip, t0, ty0) # rs)) (tally ip ''message'' ((ip, t0, ty0) # rs))
            (window_at (map_option chat_view (cb ip)) t0))"
      using run_chat [OF that(1)] unfolding served_def by (elim conjE)
  qed (use that(2) in simp_all)
  show ?thesis
    apply (intro conjI impI)
    apply (rule checkRateLimit_step)
    apply (rule checkFileRateLimit_step)
    apply (rule checkChatRateLimit_step)
    apply (erule run_otm)
    apply (erule run_file)
    apply (erule run_chat)
    apply (elim conjE, erule (1) again_otm)
    apply (elim conjE, erule (1) again_file)
    apply (elim conjE, erule (1) again_chat)
    apply (rule otm_create_guarded [THEN conjunct1])
    apply (rule otm_create_guarded [THEN conjunct2])
    apply (rule otm_read_guarded [THEN conjunct1])
    apply (rule otm_read_guarded [THEN conjunct2])
    apply (rule file_upload_guarded [THEN conjunct1])
    apply (rule file_upload_guarded [THEN conjunct2])
    apply (rule file_download_guarded [THEN conjunct1])
    apply (rule file_download_guarded [THEN conjunct2])
    apply (rule chat_invite_create_guarded [THEN conjunct1])
    apply (rule chat_invite_create_guarded [THEN conjunct2])
    apply (rule chat_invite_claim_guarded [THEN conjunct1])
    apply (rule chat_invite_claim_guarded [THEN conjunct2])
    apply (rule chat_message_send_guarded [THEN conjunct1])
    apply (rule chat_message_send_guarded [THEN conjunct2])
    done
qed

text \<open>
  The theorem at a concrete run: a client opens its window with a GET /otm/\{id\} at 0,
  another client and the other families are served in between, its POST /otm comes
  third and its second GET last; then a POST 60001 ms after the start, a POST after 40
  GETs of the same window, a POST after 30 POSTs, and an invite claim and a message
  against a bucket with 10 invites.
\<close>

theorem rate_limit_fixed_window_witness:
  "map_option otm_view
      (snd (serve checkRateLimit Map.empty
         [(''10.0.0.1'', 0, ''get-otm''), (''10.0.0.2'', 5, ''post-otm''), (''10.0.0.1'', 10, ''post-otm''),
          (''10.0.0.1'', 20, ''upload''), (''10.0.0.1'', 60000, ''invite''), (''10.0.0.2'', 70000, ''invite''),
          (''10.0.0.1'', 30, ''get-otm'')]) ''10.0.0.1'')
     = Some (0, 1, 2)
   \<and> map_option file_view
      (snd (serve checkFileRateLimit Map.empty
         [(''10.0.0.1'', 0, ''get-otm''), (''10.0.0.2'', 5, ''post-otm''), (''10.0.0.1'', 10, ''post-otm''),
          (''10.0.0.1'', 20, ''upload''), (''10.0.0.1'', 60000, ''invite''), (''10.0.0.2'', 70000, ''invite''),
          (''10.0.0.1'', 30, ''get-otm'')]) ''10.0.0.1'')
     = Some (0, 1, 0)
   \<and> map_option chat_view
      (snd (serve checkChatRateLimit Map.empty
         [(''10.0.0.1'', 0, ''get-otm''), (''10.0.0.2'', 5, ''post-otm''), (''10.0.0.1'', 10, ''post-otm''),
          (''10.0.0.1'', 20, ''upload''), (''10.0.0.1'', 60000, ''invite''), (''10.0.0.2'', 70000, ''invite''),
          (''10.0.0.1'', 30, ''get-otm'')]) ''10.0.0.1'')
     = Some (0, 1, 0)
   \<and> fst (serve checkRateLimit Map.empty
         [(''10.0.0.1'', 0, ''get-otm''), (''10.0.0.2'', 5, ''post-otm''), (''10.0.0.1'', 10, ''post-otm''),
          (''10.0.0.1'', 20, ''upload''), (''10.0.0.1'', 60000, ''invite''), (''10.0.0.2'', 70000, ''invite''),
          (''10.0.0.1'', 30, ''get-otm'')]) ! 2
   \<and> fst (checkRateLimit
        (snd (serve checkRateLimit Map.empty
         [(''10.0.0.1'', 0, ''get-otm''), (''10.0.0.2'', 5, ''post-otm''), (''10.0.0.1'', 10, ''post-otm''),
          (''10.0.0.1'', 20, ''upload''), (''10.0.0.1'', 60000, ''invite''), (''10.0.0.2'', 70000, ''invite''),
          (''10.0.0.1'', 30, ''get-otm'')])) ''10.0.0.1'' 60001 ''post-otm'')
   \<and> map_option otm_view
        (snd (checkRateLimit
          (snd (serve checkRateLimit Map.empty
           [(''10.0.0.1'', 0, ''get-otm''), (''10.0.0.2'', 5, ''post-otm''), (''10.0.0.1'', 10, ''post-otm''),
            (''10.0.0.1'', 20, ''upload''), (''10.0.0.1'', 60000, ''invite''), (''10.0.0.2'', 70000, ''invite''),
            (''10.0.0.1'', 30, ''get-otm'')])) ''10.0.0.1'' 60001 ''post-otm'') ''10.0.0.1'')
     = Some (60001, 1, 0)
   \<and> fst (checkRateLimit [''10.0.0.1'' \<mapsto> \<lparr>windowStart = 0, postCount = 0, getCount = 40\<rparr>]
            ''10.0.0.1'' 5 ''post-otm'')
   \<and> \<not> fst (checkRateLimit [''10.0.0.1'' \<mapsto> \<lparr>windowStart = 0, postCount = 30, getCount = 40\<rparr>]
            ''10.0.0.1'' 5 ''post-otm'')
   \<and> map_option otm_view
        (snd (checkRateLimit [''10.0.0.1'' \<mapsto> \<lparr>windowStart = 0, postCount = 30, getCount = 40\<rparr>]
            ''10.0.0.1'' 5 ''post-otm'') ''10.0.0.1'')
     = Some (0, 31, 40)
   \<and> fst (chat_invite_claim
            (initial\<lparr>chatRateBuckets :=
               [''10.0.0.1'' \<mapsto> \<lparr>windowStart = 0, inviteCount = 10, messageCount = 0\<rparr>]\<rparr>)
            ''10.0.0.1'' 5 ''inv1'' (Some ''K2''))
     = (429, ErrorBody ''Rate limit exceeded'')
   \<and> fst (chat_message_send
            (initial\<lparr>chatRateBuckets :=
               [''10.0.0.1'' \<mapsto> \<lparr>windowStart = 0, inviteCount = 10, messageCount = 0\<rparr>]\<rparr>)
            ''10.0.0.1'' 5 None)
     \<noteq> (429, ErrorBody ''Rate limit exceeded'')"
proof -
  let ?ip = "''10.0.0.1''"
  let ?rs = "[(''10.0.0.2'', 5, ''post-otm''), (''10.0.0.1'', 10, ''post-otm''),
          (''10.0.0.1'', 20, ''upload''), (''10.0.0.1'', 60000, ''invite''), (''10.0.0.2'', 70000, ''invite''),
          (''10.0.0.1'', 30, ''get-otm'')] :: (string \<times> int \<times> string) list"
  let ?sat = "initial\<lparr>chatRateBuckets :=
               [''10.0.0.1'' \<mapsto> \<lparr>windowStart = 0, inviteCount = 10, messageCount = 0\<rparr>]\<rparr>"
  have w0: "window_at (map_option otm_view (Map.empty ?ip)) 0 = (0, 0, 0)"
      "window_at (map_option file_view (Map.empty ?ip)) 0 = (0, 0, 0)"
      "window_at (map_option chat_view (Map.empty ?ip)) 0 = (0, 0, 0)"
    by (simp_all add: window_at_def)
  have inside: "in_window ?ip 0 ?rs"
    by (simp add: in_window_def)
  have later: "(60001 :: int) - 0 > 60 * 1000" by simp
  have full: "\<not> fst (checkChatRateLimit (chatRateBuckets ?sat) ?ip 5 ''invite'')"
    by (simp add: checkChatRateLimit_def CHAT_RATE_WINDOW_MS_def MAX_CHAT_INVITE_PER_WINDOW_def)
  have room: "fst (checkChatRateLimit (chatRateBuckets ?sat) ?ip 5 ''message'')"
    by (simp add: checkChatRateLimit_def CHAT_RATE_WINDOW_MS_def MAX_CHAT_MESSAGE_PER_WINDOW_def)
  note w = rate_limit_fixed_window [where rb = Map.empty and fb = Map.empty and cb = Map.empty
      and ip = ?ip and ?t0.0 = 0 and ?ty0.0 = "''get-otm''" and ty = "''get-otm''" and rs = ?rs and t' = 60001
      and ty' = "''post-otm''" and s = ?sat and now = 5 and ident = "''inv1''"
      and claim_body = "Some ''K2''" and msg_body = None, unfolded w0 fst_conv]
  note w3 = w [THEN conjunct2, THEN conjunct2, THEN conjunct2]
  note w6 = w3 [THEN conjunct2, THEN conjunct2, THEN conjunct2]
  note w9 = w6 [THEN conjunct2, THEN conjunct2, THEN conjunct2]
  note w19 = w9 [THEN conjunct2, THEN conjunct2, THEN conjunct2, THEN conjunct2, THEN conjunct2,
      THEN conjunct2, THEN conjunct2, THEN conjunct2, THEN conjunct2, THEN conjunct2]
  have otm: "served checkRateLimit otm_view ''post-otm'' 30 ''get-otm'' 60 Map.empty ?ip
      ((?ip, 0, ''get-otm'') # ?rs) (0, 0, 0)"
    using inside by (rule w3 [THEN conjunct1, THEN mp])
  have files: "served checkFileRateLimit file_view ''upload'' 10 ''download'' 30 Map.empty ?ip
      ((?ip, 0, ''get-otm'') # ?rs) (0, 0, 0)"
    using inside by (rule w3 [THEN conjunct2, THEN conjunct1, THEN mp])
  have chat: "served checkChatRateLimit chat_view ''invite'' 10 ''message'' 60 Map.empty ?ip
      ((?ip, 0, ''get-otm'') # ?rs) (0, 0, 0)"
    using inside by (rule w3 [THEN conjunct2, THEN conjunct2, THEN conjunct1, THEN mp])
  have again: "reopens checkRateLimit otm_view ''post-otm'' ''get-otm''
      (snd (serve checkRateLimit Map.empty ((?ip, 0, ''get-otm'') # ?rs))) ?ip 60001 ''post-otm''"
    using conjI [OF inside later] by (rule w6 [THEN conjunct1, THEN mp])
  have claim: "guarded (chat_invite_claim ?sat ?ip 5 ''inv1'' (Some ''K2''))
      (fst (checkChatRateLimit (chatRateBuckets ?sat) ?ip 5 ''invite''))
      (?sat\<lparr>chatRateBuckets := snd (checkChatRateLimit (chatRateBuckets ?sat) ?ip 5 ''invite'')\<rparr>)"
    by (rule w19 [THEN conjunct1])
  have send: "guarded (chat_message_send ?sat ?ip 5 None)
      (fst (checkChatRateLimit (chatRateBuckets ?sat) ?ip 5 ''message''))
      (?sat\<lparr>chatRateBuckets := snd (checkChatRateLimit (chatRateBuckets ?sat) ?ip 5 ''message'')\<rparr>)"
    by (rule w19 [THEN conjunct2, THEN conjunct2, THEN conjunct1])
  have a: "map_option otm_view (snd (serve checkRateLimit Map.empty ((?ip, 0, ''get-otm'') # ?rs)) ?ip)
      = Some (0, 1, 2)"
    using otm [unfolded served_def, THEN conjunct2, THEN conjunct2]
    by (simp add: tally_def counting_def numeral_2_eq_2 del: serve.simps)
  have b: "map_option file_view (snd (serve checkFileRateLimit Map.empty ((?ip, 0, ''get-otm'') # ?rs)) ?ip)
      = Some (0, 1, 0)"
    using files [unfolded served_def, THEN conjunct2, THEN conjunct2]
    by (simp add: tally_def counting_def numeral_2_eq_2 del: serve.simps)
  have c: "map_option chat_view (snd (serve checkChatRateLimit Map.empty ((?ip, 0, ''get-otm'') # ?rs)) ?ip)
      = Some (0, 1, 0)"
    using chat [unfolded served_def, THEN conjunct2, THEN conjunct2]
    by (simp add: tally_def counting_def numeral_2_eq_2 del: serve.simps)
  have d: "fst (serve checkRateLimit Map.empty ((?ip, 0, ''get-otm'') # ?rs)) ! 2"
    using otm [unfolded served_def, THEN conjunct2, THEN conjunct1, THEN spec, of 2]
    by (simp add: tally_def counting_def within_limits_def del: serve.simps)
  have e: "fst (checkRateLimit (snd (serve checkRateLimit Map.empty ((?ip, 0, ''get-otm'') # ?rs)))
      ?ip 60001 ''post-otm'')"
    using again unfolding reopens_def by (rule conjunct1)
  have f: "map_option otm_view
        (snd (checkRateLimit (snd (serve checkRateLimit Map.empty ((?ip, 0, ''get-otm'') # ?rs)))
           ?ip 60001 ''post-otm'') ?ip) = Some (60001, 1, 0)"
    using again [unfolded reopens_def, THEN conjunct2] by simp
  have p1: "fst (checkRateLimit [''10.0.0.1'' \<mapsto> \<lparr>windowStart = 0, postCount = 0, getCount = 40\<rparr>]
            ''10.0.0.1'' 5 ''post-otm'')"
    using rate_limit_fixed_window [where rb = "[''10.0.0.1'' \<mapsto> \<lparr>windowStart = 0, postCount = 0, getCount = 40\<rparr>]"
        and ip = ?ip and now = 5 and ty = "''post-otm''", THEN conjunct1]
    by (simp add: limiter_step_def otm_view_def window_at_def counting_def within_limits_def)
  have p2: "\<not> fst (checkRateLimit [''10.0.0.1'' \<mapsto> \<lparr>windowStart = 0, postCount = 30, getCount = 40\<rparr>]
            ''10.0.0.1'' 5 ''post-otm'')
      \<and> map_option otm_view
        (snd (checkRateLimit [''10.0.0.1'' \<mapsto> \<lparr>windowStart = 0, postCount = 30, getCount = 40\<rparr>]
            ''10.0.0.1'' 5 ''post-otm'') ''10.0.0.1'')
       = Some (0, 31, 40)"
    using rate_limit_fixed_window [where rb = "[''10.0.0.1'' \<mapsto> \<lparr>windowStart = 0, postCount = 30, getCount = 40\<rparr>]"
        and ip = ?ip and now = 5 and ty = "''post-otm''", THEN conjunct1]
    by (simp add: limiter_step_def otm_view_def window_at_def counting_def within_limits_def)
  have g: "fst (chat_invite_claim ?sat ?ip 5 ''inv1'' (Some ''K2'')) = (429, ErrorBody ''Rate limit exceeded'')"
    using claim full unfolding guarded_def by blast
  have h: "fst (chat_message_send ?sat ?ip 5 None) \<noteq> (429, ErrorBody ''Rate limit exceeded'')"
    using send room unfolding guarded_def by blast
  note p3 = p2 [THEN conjunct1] and p4 = p2 [THEN conjunct2]
  from a b c d e f p1 p3 p4 g h show ?thesis by (intro conjI)
qed

text \<open>
  Claim C8 as stated fails in one clause, that the counter increments per admitted
  request: of 31 POST /otm of one client at one time, 30 are admitted and the last is
  rejected, and the counter is then 31, not 30.
\<close>

theorem rate_limit_counts_rejected_counterexample:
  "fst (serve checkRateLimit Map.empty (replicate 31 (''10.0.0.1'', 1000, ''post-otm'')))
     = replicate 30 True @ [False]
   \<and> map_option otm_view
       (snd (serve checkRateLimit Map.empty (replicate 31 (''10.0.0.1'', 1000, ''post-otm''))) ''10.0.0.1'')
     = Some (1000, 31, 0)"
proof -
  have "serve checkRateLimit Map.empty (replicate 31 (''10.0.0.1'', 1000, ''post-otm''))
      = (replicate 30 True @ [False],
         [''10.0.0.1'' \<mapsto> \<lparr>windowStart = 1000, postCount = 31, getCount = 0\<rparr>])"
    by (simp add: checkRateLimit_def RATE_WINDOW_MS_def MAX_POST_OTM_PER_WINDOW_def
        MAX_GET_OTM_PER_WINDOW_def Let_def numeral_eq_Suc)
  then show ?thesis by (simp add: otm_view_def)
qed

section \<open>Invites\<close>

lemma invite_kept_step:
  assumes "chatInviteStore s i = Some entry" and "claimed entry" and "in_lifetime entry i e"
  shows "chatInviteStore (snd (step parse s e)) i = Some entry"
  using assms
  by (cases e) (auto simp: handler_defs Let_def split_beta split: handler_splits)

lemma invite_kept_run:
  assumes "chatInviteStore s i = Some entry" and "claimed entry"
    and "\<forall>e \<in> set es. in_lifetime entry i e"
  shows "chatInviteStore (snd (run parse s es)) i = Some entry"
  using assms
proof (induction es arbitrary: s)
  case Nil
  then show ?case by simp
next
  case (Cons e es)
  have "chatInviteStore (snd (step parse s e)) i = Some entry"
    using Cons.prems by (intro invite_kept_step) simp_all
  then have "chatInviteStore (snd (run parse (snd (step parse s e)) es)) i = Some entry"
    using Cons.prems by (intro Cons.IH) simp_all
  then show ?case by (simp add: split_beta)
qed

lemma invite_claimed_answer:
  assumes "chatInviteStore s i = Some entry" and "claimed entry" and "in_lifetime entry i e"
    and "claimed_answer s i e \<noteq> None"
  shows "fst (step parse s e) = claimed_answer s i e"
  using assms
  by (cases e)
    (auto simp: chat_invite_claim_def chat_invite_claim_end_def rate_limited_def split_beta Let_def
      split: option.splits if_splits)

lemma claimed_answer_not_served:
  "claimed_answer s i e \<noteq> Some (200, b)"
  by (cases e) (simp_all split: option.splits)

lemma invite_claimed_view:
  assumes "chatInviteStore s i = Some entry" and "\<not> js_gt now (expiresAt entry)"
  shows "chat_invite_get s now i
         = ((200, InviteView i (publicKeyBundle entry) (claimed entry) (claimerBundle entry)), s)"
  using assms by (simp add: chat_invite_get_def)

lemma invite_claim_served:
  assumes "chat_invite_claim s ip now i parsed = ((200, b), s')"
  shows "\<exists>entry bundle. parsed = Some bundle \<and> bundle \<noteq> [] \<and> chatInviteStore s i = Some entry
          \<and> \<not> claimed entry \<and> \<not> js_gt now (expiresAt entry) \<and> b = ClaimOk (publicKeyBundle entry)
          \<and> chatInviteStore s' i = Some (entry\<lparr>claimed := True, claimerBundle := Some bundle\<rparr>)"
  using assms
  by (auto simp: chat_invite_claim_def chat_invite_claim_end_def rate_limited_def split_beta Let_def
      split: option.splits if_splits)

lemma invite_claim_expired:
  assumes "chatInviteStore s i = Some entry" and "js_gt now (expiresAt entry)" and "bundle \<noteq> []"
  shows "chat_invite_claim_end s now i (Some bundle)
         = ((404, ErrorBody ''Invite expired''), s\<lparr>chatInviteStore := (chatInviteStore s)(i := None)\<rparr>)"
  using assms by (simp add: chat_invite_claim_end_def)

text \<open>
  Claim C2, as amended. A claim that answers 200 found an existing, unexpired, unclaimed
  entry, carried a non-empty bundle, answered with the creator's bundle and stored
  \<open>claimed = True\<close> with the claimer's bundle. Through any later events that come within
  the entry's lifetime, the entry stays exactly as the claim left it (no get, claim,
  create or sweep changes it); every later claim on it answers 409, unless the rate
  limiter rejects it (429) or its body has no bundle (400), and none answers 200; every
  later get shows
  \<open>claimed = True\<close> and the claimer's bundle. A claim that arrives after \<open>expiresAt\<close>
  answers 404 and deletes the entry.
\<close>

theorem invite_claim_once:
  assumes ok: "step parse s (InviteClaim ip now i parsed) = (Some (200, ClaimOk kb), s')"
    and alive: "\<forall>e \<in> set es. \<forall>entry. chatInviteStore s i = Some entry \<longrightarrow> in_lifetime entry i e"
  shows "\<exists>entry bundle.
           parsed = Some bundle \<and> bundle \<noteq> [] \<and> chatInviteStore s i = Some entry
         \<and> \<not> claimed entry \<and> \<not> js_gt now (expiresAt entry) \<and> kb = publicKeyBundle entry
         \<and> chatInviteStore s' i = Some (entry\<lparr>claimed := True, claimerBundle := Some bundle\<rparr>)
         \<and> chatInviteStore (snd (run parse s' es)) i
             = Some (entry\<lparr>claimed := True, claimerBundle := Some bundle\<rparr>)
         \<and> (\<forall>k < length es. claimed_answer (snd (run parse s' (take k es))) i (es ! k) \<noteq> None \<longrightarrow>
               fst (run parse s' es) ! k = claimed_answer (snd (run parse s' (take k es))) i (es ! k))
         \<and> (\<forall>k < length es. \<forall>ip' t parsed' b. es ! k = InviteClaim ip' t i parsed' \<longrightarrow>
               fst (run parse s' es) ! k \<noteq> Some (200, b))
         \<and> (\<forall>k < length es. \<forall>t. es ! k = InviteGet t i \<longrightarrow>
               fst (run parse s' es) ! k = Some (200, InviteView i kb True (Some bundle)))
         \<and> (\<forall>s2 t2 b2. chatInviteStore s2 i = Some (entry\<lparr>claimed := True, claimerBundle := Some bundle\<rparr>)
               \<and> js_gt t2 (expiresAt entry) \<and> b2 \<noteq> [] \<longrightarrow>
               chat_invite_claim_end s2 t2 i (Some b2)
               = ((404, ErrorBody ''Invite expired''),
                  s2\<lparr>chatInviteStore := (chatInviteStore s2)(i := None)\<rparr>))"
proof -
  from ok have "chat_invite_claim s ip now i parsed = ((200, ClaimOk kb), s')"
    by (cases "chat_invite_claim s ip now i parsed") simp
  from invite_claim_served [OF this]
  obtain entry cb where p: "parsed = Some cb" "cb \<noteq> []"
    and e: "chatInviteStore s i = Some entry" "\<not> claimed entry" "\<not> js_gt now (expiresAt entry)"
      "kb = publicKeyBundle entry"
    and e': "chatInviteStore s' i = Some (entry\<lparr>claimed := True, claimerBundle := Some cb\<rparr>)"
    by auto
  let ?e' = "entry\<lparr>claimed := True, claimerBundle := Some cb\<rparr>"
  have life: "in_lifetime ?e' i ev" if "ev \<in> set es" for ev
  proof -
    from alive that e(1) have "in_lifetime entry i ev" by blast
    then show ?thesis by (cases ev) simp_all
  qed
  have kept: "chatInviteStore (snd (run parse s' (take k es))) i = Some ?e'" for k
    using e' by (intro invite_kept_run) (auto dest: in_set_takeD intro: life)
  have final: "chatInviteStore (snd (run parse s' es)) i = Some ?e'"
    using kept [of "length es"] by simp
  have claims: "fst (run parse s' es) ! k = claimed_answer (snd (run parse s' (take k es))) i (es ! k)"
    if k: "k < length es" and c: "claimed_answer (snd (run parse s' (take k es))) i (es ! k) \<noteq> None" for k
  proof -
    have "fst (step parse (snd (run parse s' (take k es))) (es ! k))
          = claimed_answer (snd (run parse s' (take k es))) i (es ! k)"
      using kept [of k] c k by (intro invite_claimed_answer [where entry = ?e']) (auto intro: life)
    then show ?thesis using run_nth [OF k] by simp
  qed
  have once: "fst (run parse s' es) ! k \<noteq> Some (200, b)"
    if k: "k < length es" and c: "es ! k = InviteClaim ip' t i parsed'" for k ip' t parsed' b
  proof -
    from c have "claimed_answer (snd (run parse s' (take k es))) i (es ! k) \<noteq> None" by simp
    from claims [OF k this] show ?thesis by (simp add: claimed_answer_not_served)
  qed
  have gets: "fst (run parse s' es) ! k = Some (200, InviteView i kb True (Some cb))"
    if k: "k < length es" and g: "es ! k = InviteGet t i" for k t
  proof -
    have "in_lifetime ?e' i (es ! k)" using k by (intro life) simp
    with g have "\<not> js_gt t (expiresAt ?e')" by simp
    from invite_claimed_view [OF kept [of k] this] g e(4)
    have "fst (step parse (snd (run parse s' (take k es))) (es ! k))
          = Some (200, InviteView i kb True (Some cb))" by simp
    then show ?thesis using run_nth [OF k] by simp
  qed
  have late: "chat_invite_claim_end s2 t2 i (Some b2)
               = ((404, ErrorBody ''Invite expired''),
                  s2\<lparr>chatInviteStore := (chatInviteStore s2)(i := None)\<rparr>)"
    if "chatInviteStore s2 i = Some ?e'" "js_gt t2 (expiresAt entry)" "b2 \<noteq> []" for s2 t2 b2
    using that by (intro invite_claim_expired [where entry = ?e']) simp_all
  have claims': "\<forall>k < length es. claimed_answer (snd (run parse s' (take k es))) i (es ! k) \<noteq> None \<longrightarrow>
               fst (run parse s' es) ! k = claimed_answer (snd (run parse s' (take k es))) i (es ! k)"
    using claims by simp
  have once': "\<forall>k < length es. \<forall>ip' t parsed' b. es ! k = InviteClaim ip' t i parsed' \<longrightarrow>
               fst (run parse s' es) ! k \<noteq> Some (200, b)"
    using once by simp
  have gets': "\<forall>k < length es. \<forall>t. es ! k = InviteGet t i \<longrightarrow>
               fst (run parse s' es) ! k = Some (200, InviteView i kb True (Some cb))"
    using gets by simp
  have late': "\<forall>s2 t2 b2. chatInviteStore s2 i = Some ?e'
               \<and> js_gt t2 (expiresAt entry) \<and> b2 \<noteq> [] \<longrightarrow>
               chat_invite_claim_end s2 t2 i (Some b2)
               = ((404, ErrorBody ''Invite expired''),
                  s2\<lparr>chatInviteStore := (chatInviteStore s2)(i := None)\<rparr>)"
    using late by simp
  show ?thesis
    by (intro exI [of _ entry] exI [of _ cb] conjI)
      (rule p e e' final claims' once' gets' late')+
qed

text \<open>
  The theorem after a create and a first claim: a get, a second claim and a sweep.
\<close>

theorem invite_claim_once_witness:
  "fst (run (\<lambda>_. None)
         (snd (step (\<lambda>_. None)
                (snd (chat_invite_create initial ''10.0.0.1'' 0 (Some (InviteReq ''inv1'' ''K1'' NoExpiry))))
                (InviteClaim ''10.0.0.2'' 10 ''inv1'' (Some ''K2''))))
         [InviteGet 20 ''inv1'', InviteClaim ''10.0.0.3'' 30 ''inv1'' (Some ''K3''), InviteSweep 40])
   = [Some (200, InviteView ''inv1'' ''K1'' True (Some ''K2'')),
      Some (409, ErrorBody ''Invite already claimed''), None]"
proof -
  let ?p = "\<lambda>_ :: string. None :: json option"
  let ?s = "snd (chat_invite_create initial ''10.0.0.1'' 0 (Some (InviteReq ''inv1'' ''K1'' NoExpiry)))"
  let ?s' = "snd (step ?p ?s (InviteClaim ''10.0.0.2'' 10 ''inv1'' (Some ''K2'')))"
  let ?es = "[InviteGet 20 ''inv1'', InviteClaim ''10.0.0.3'' 30 ''inv1'' (Some ''K3''), InviteSweep 40]"
  have ok: "step ?p ?s (InviteClaim ''10.0.0.2'' 10 ''inv1'' (Some ''K2'')) = (Some (200, ClaimOk ''K1''), ?s')"
    by (simp add: handler_defs eval_defs)
  have alive: "\<forall>e \<in> set ?es. \<forall>entry. chatInviteStore ?s ''inv1'' = Some entry \<longrightarrow> in_lifetime entry ''inv1'' e"
    by (simp add: handler_defs eval_defs)
  from invite_claim_once [OF ok alive]
  have g: "\<forall>k < length ?es. \<forall>t. ?es ! k = InviteGet t ''inv1'' \<longrightarrow>
               fst (run ?p ?s' ?es) ! k = Some (200, InviteView ''inv1'' ''K1'' True (Some ''K2''))"
    and c: "\<forall>k < length ?es. claimed_answer (snd (run ?p ?s' (take k ?es))) ''inv1'' (?es ! k) \<noteq> None \<longrightarrow>
               fst (run ?p ?s' ?es) ! k = claimed_answer (snd (run ?p ?s' (take k ?es))) ''inv1'' (?es ! k)"
    by blast+
  from g [rule_format, of 0 20] have r0: "fst (run ?p ?s' ?es) ! 0 = Some (200, InviteView ''inv1'' ''K1'' True (Some ''K2''))"
    by simp
  from c [rule_format, of 1] have r1: "fst (run ?p ?s' ?es) ! 1 = Some (409, ErrorBody ''Invite already claimed'')"
    by (simp add: handler_defs eval_defs)
  have r2: "fst (run ?p ?s' ?es) ! 2 = None" by (simp add: split_beta)
  have len: "length (fst (run ?p ?s' ?es)) = 3" by (subst run_length) simp
  show ?thesis
  proof (rule nth_equalityI)
    show "length (fst (run ?p ?s' ?es)) = length [Some (200, InviteView ''inv1'' ''K1'' True (Some ''K2'')),
      Some (409, ErrorBody ''Invite already claimed''), None]" using len by simp
  next
    fix k assume "k < length (fst (run ?p ?s' ?es))"
    with len have "k = 0 \<or> k = 1 \<or> k = 2" by auto
    with r0 r1 r2 show "fst (run ?p ?s' ?es) ! k = [Some (200, InviteView ''inv1'' ''K1'' True (Some ''K2'')),
      Some (409, ErrorBody ''Invite already claimed''), None] ! k" by auto
  qed
qed

text \<open>
  Claim C2 as stated fails. After a successful claim, later claims on the same invite
  answer 400 (no bundle in the body), 409, 429 (the eleventh invite request of one
  client within a minute) and, once \<open>expiresAt\<close> has passed, 404, which also deletes the
  entry; the same invite id is then created again and claimed a second time.
\<close>

theorem invite_claim_twice_counterexample:
  "fst (run (\<lambda>_. None) initial
         ([InviteCreate ''10.0.0.1'' 0 (Some (InviteReq ''inv1'' ''K1'' (ParsesTo 1000))),
           InviteClaim ''10.0.0.2'' 10 ''inv1'' (Some ''K2''),
           InviteClaim ''10.0.0.2'' 11 ''inv1'' (Some [])]
          @ replicate 8 (InviteClaim ''10.0.0.2'' 12 ''inv1'' (Some ''K3''))
          @ [InviteClaim ''10.0.0.2'' 13 ''inv1'' (Some ''K3''),
             InviteClaim ''10.0.0.3'' 2000 ''inv1'' (Some ''K3''),
             InviteCreate ''10.0.0.1'' 2001 (Some (InviteReq ''inv1'' ''K4'' NoExpiry)),
             InviteClaim ''10.0.0.3'' 2002 ''inv1'' (Some ''K5'')]))
   = [Some (201, InviteCreated ''inv1''),
      Some (200, ClaimOk ''K1''),
      Some (400, ErrorBody ''Missing claimerBundle'')]
     @ replicate 8 (Some (409, ErrorBody ''Invite already claimed''))
     @ [Some (429, ErrorBody ''Rate limit exceeded''),
        Some (404, ErrorBody ''Invite expired''),
        Some (201, InviteCreated ''inv1''),
        Some (200, ClaimOk ''K4'')]"
  by (simp add: chat_invite_create_def chat_invite_create_end_def chat_invite_claim_def
      chat_invite_claim_end_def incrementMetric_def eval_defs numeral_eq_Suc)

text \<open>
  Claim C3 on the code. An invite created at time 0 with a client-supplied \<open>expiresAt\<close> of
  48 hours is still served by GET one millisecond after 24 hours, and the sweep at that
  time deletes it. An invite created at time 0 with a client-supplied \<open>expiresAt\<close> of one
  second is kept by the sweep an hour later, long after its \<open>expiresAt\<close> has passed.
\<close>

theorem invite_sweep_ignores_expiresAt:
  "map_option expiresAt
     (chatInviteStore
        (snd (chat_invite_create initial ''10.0.0.1'' 0
                (Some (InviteReq ''inv1'' ''K1'' (ParsesTo 172800000))))) ''inv1'')
     = Some (Num 172800000)
   \<and> fst (chat_invite_get
        (snd (chat_invite_create initial ''10.0.0.1'' 0
                (Some (InviteReq ''inv1'' ''K1'' (ParsesTo 172800000))))) 86400001 ''inv1'')
     = (200, InviteView ''inv1'' ''K1'' False None)
   \<and> chatInviteStore
        (invite_sweep 86400001
          (snd (chat_invite_create initial ''10.0.0.1'' 0
                  (Some (InviteReq ''inv1'' ''K1'' (ParsesTo 172800000)))))) ''inv1''
     = None
   \<and> map_option expiresAt
        (chatInviteStore
          (invite_sweep 3600000
            (snd (chat_invite_create initial ''10.0.0.1'' 0
                    (Some (InviteReq ''inv2'' ''K1'' (ParsesTo 1000)))))) ''inv2'')
     = Some (Num 1000)"
proof -
  let ?long = "snd (chat_invite_create initial ''10.0.0.1'' 0
                 (Some (InviteReq ''inv1'' ''K1'' (ParsesTo 172800000))))"
  let ?short = "snd (chat_invite_create initial ''10.0.0.1'' 0
                  (Some (InviteReq ''inv2'' ''K1'' (ParsesTo 1000))))"
  have long: "chatInviteStore ?long ''inv1''
      = Some \<lparr>createdAt = 0, publicKeyBundle = ''K1'', expiresAt = Num 172800000,
               claimed = False, claimerBundle = None\<rparr>"
    by (simp add: chat_invite_create_def chat_invite_create_end_def incrementMetric_def eval_defs)
  have short: "chatInviteStore ?short ''inv2''
      = Some \<lparr>createdAt = 0, publicKeyBundle = ''K1'', expiresAt = Num 1000,
               claimed = False, claimerBundle = None\<rparr>"
    by (simp add: chat_invite_create_def chat_invite_create_end_def incrementMetric_def eval_defs)
  have served: "fst (chat_invite_get ?long 86400001 ''inv1'') = (200, InviteView ''inv1'' ''K1'' False None)"
    using long by (simp add: chat_invite_get_def js_gt_def)
  have swept: "chatInviteStore (invite_sweep 86400001 ?long) ''inv1'' = None"
    using long by (simp add: invite_sweep_def CHAT_INVITE_TTL_MS_def)
  have kept: "map_option expiresAt (chatInviteStore (invite_sweep 3600000 ?short) ''inv2'') = Some (Num 1000)"
    using short by (simp add: invite_sweep_def CHAT_INVITE_TTL_MS_def)
  from long served swept kept show ?thesis by simp
qed

text \<open>
  Claim C10. An invite created with an \<open>expiresAt\<close> that does not parse is stored with a
  \<^verbatim>\<open>NaN\<close> expiry. For an entry with a \<^verbatim>\<open>NaN\<close> expiry: get answers 200 at any time and
  changes nothing; claim never answers that the invite expired (or is missing); no
  event other than the invite sweep removes the entry or changes its expiry; and the
  sweep removes it exactly when it runs more than 24 hours after \<open>createdAt\<close>.
\<close>

theorem nan_expiry_never_expires:
  assumes stored: "chatInviteStore s i = Some entry" and nan: "expiresAt entry = NaN"
  shows "chat_invite_get s now i
           = ((200, InviteView i (publicKeyBundle entry) (claimed entry) (claimerBundle entry)), s)
       \<and> fst (chat_invite_claim s ip now i parsed) \<noteq> (404, ErrorBody ''Invite expired'')
       \<and> fst (chat_invite_claim s ip now i parsed) \<noteq> (404, ErrorBody ''Invite not found'')
       \<and> (\<forall>e. (\<forall>t. e \<noteq> InviteSweep t) \<longrightarrow>
             (\<exists>entry'. chatInviteStore (snd (step parse s e)) i = Some entry'
                       \<and> expiresAt entry' = NaN \<and> createdAt entry' = createdAt entry))
       \<and> chatInviteStore (invite_sweep t s) i
           = (if t - createdAt entry > 24 * 60 * 60 * 1000 then None else Some entry)
       \<and> (j \<noteq> [] \<and> kb \<noteq> [] \<and> chatInviteStore s0 j = None \<longrightarrow>
            map_option (\<lambda>x. (expiresAt x, createdAt x))
              (chatInviteStore (snd (chat_invite_create_end s0 t0 (Some (InviteReq j kb Unparseable)))) j)
            = Some (NaN, t0))"
proof -
  have get: "chat_invite_get s now i
           = ((200, InviteView i (publicKeyBundle entry) (claimed entry) (claimerBundle entry)), s)"
    using stored nan by (simp add: chat_invite_get_def js_gt_def)
  have claim: "fst (chat_invite_claim s ip now i parsed) \<noteq> (404, ErrorBody ''Invite expired'')
       \<and> fst (chat_invite_claim s ip now i parsed) \<noteq> (404, ErrorBody ''Invite not found'')"
    using stored nan
    by (auto simp: chat_invite_claim_def chat_invite_claim_end_def js_gt_def rate_limited_def
        split_beta Let_def split: option.splits)
  have keeps: "\<exists>entry'. chatInviteStore (snd (step parse s e)) i = Some entry'
                       \<and> expiresAt entry' = NaN \<and> createdAt entry' = createdAt entry"
    if "\<forall>t. e \<noteq> InviteSweep t" for e
    using stored nan that
    by (cases e) (auto simp: handler_defs js_gt_def Let_def split_beta split: handler_splits)
  have sweep: "chatInviteStore (invite_sweep t s) i
           = (if t - createdAt entry > 24 * 60 * 60 * 1000 then None else Some entry)"
    using stored by (simp add: invite_sweep_def CHAT_INVITE_TTL_MS_def)
  have create: "map_option (\<lambda>x. (expiresAt x, createdAt x))
              (chatInviteStore (snd (chat_invite_create_end s0 t0 (Some (InviteReq j kb Unparseable)))) j)
            = Some (NaN, t0)"
    if "j \<noteq> []" "kb \<noteq> []" "chatInviteStore s0 j = None"
    using that by (simp add: chat_invite_create_end_def incrementMetric_def)
  from get claim keeps sweep create show ?thesis by blast
qed

text \<open>
  The theorem for an invite created with an unparseable \<open>expiresAt\<close>.
\<close>

theorem nan_expiry_never_expires_witness:
  "fst (chat_invite_get
         (snd (chat_invite_create initial ''10.0.0.1'' 0 (Some (InviteReq ''inv1'' ''K1'' Unparseable))))
         9999999999999 ''inv1'')
     = (200, InviteView ''inv1'' ''K1'' False None)
   \<and> chatInviteStore
       (invite_sweep 86400000
          (snd (chat_invite_create initial ''10.0.0.1'' 0 (Some (InviteReq ''inv1'' ''K1'' Unparseable)))))
       ''inv1''
     = Some \<lparr>createdAt = 0, publicKeyBundle = ''K1'', expiresAt = NaN, claimed = False, claimerBundle = None\<rparr>
   \<and> chatInviteStore
       (invite_sweep 86400001
          (snd (chat_invite_create initial ''10.0.0.1'' 0 (Some (InviteReq ''inv1'' ''K1'' Unparseable)))))
       ''inv1''
     = None"
proof -
  let ?s = "snd (chat_invite_create initial ''10.0.0.1'' 0 (Some (InviteReq ''inv1'' ''K1'' Unparseable)))"
  let ?e = "\<lparr>createdAt = 0, publicKeyBundle = ''K1'', expiresAt = NaN, claimed = False, claimerBundle = None\<rparr>"
  have stored: "chatInviteStore ?s ''inv1'' = Some ?e"
    by (simp add: handler_defs eval_defs)
  have nan: "expiresAt ?e = NaN" by simp
  from nan_expiry_never_expires [OF stored nan, of 9999999999999 _ _ _ 86400000]
  have a: "fst (chat_invite_get ?s 9999999999999 ''inv1'') = (200, InviteView ''inv1'' ''K1'' False None)"
    and b: "chatInviteStore (invite_sweep 86400000 ?s) ''inv1'' = Some ?e"
    by simp_all
  from nan_expiry_never_expires [OF stored nan, of _ _ _ _ 86400001]
  have c: "chatInviteStore (invite_sweep 86400001 ?s) ''inv1'' = None"
    by simp
  from a b c show ?thesis by simp
qed

section \<open>Message queue\<close>

lemma send_end_duplicate:
  assumes "recipient \<noteq> []" and "encryptedMessage \<noteq> []" and "messageId \<noteq> []"
    and "messageId \<in> msg_id ` set (mailbox s recipient)"
  shows "chat_message_send_end s now (Some (MsgReq recipient sender encryptedMessage messageId))
         = ((200, DuplicateBody), s)"
  using assms
  by (cases "chatMessageStore s recipient")
    (auto simp: chat_message_send_end_def mailbox_def list_ex_iff)

lemma send_end_new:
  assumes "recipient \<noteq> []" and "encryptedMessage \<noteq> []" and "messageId \<noteq> []"
    and "messageId \<notin> msg_id ` set (mailbox s recipient)"
  shows "fst (chat_message_send_end s now (Some (MsgReq recipient sender encryptedMessage messageId)))
           = (201, SuccessBody)
       \<and> chatMessageStore (snd (chat_message_send_end s now
             (Some (MsgReq recipient sender encryptedMessage messageId))))
           = (chatMessageStore s)(recipient \<mapsto> mailbox s recipient @
               [\<lparr>msg_id = messageId, msg_from = (if sender = [] then ''unknown'' else sender),
                 msg_payload = encryptedMessage, msg_timestamp = now\<rparr>])"
  using assms
  by (cases "chatMessageStore s recipient")
    (auto simp: chat_message_send_end_def mailbox_def list_ex_iff incrementMetric_def Let_def
      split: option.splits)

text \<open>
  Claim C4. When POST /chat/message carries a recipient, a payload and a message id that
  the recipient's mailbox already holds, the \<^verbatim>\<open>end\<close> callback answers 200 with
  \<open>duplicate: true\<close> and leaves the whole state as it was: the mailbox (size and contents),
  the totals (\<open>chat_messages_sent\<close> is not incremented) and every socket's outbox (nothing
  is pushed). So does the whole request when the rate limiter admits it; only the
  limiter's bucket changes.
\<close>

theorem duplicate_enqueue_is_noop:
  assumes wf: "recipient \<noteq> []" "encryptedMessage \<noteq> []" "messageId \<noteq> []"
    and dup: "messageId \<in> msg_id ` set (mailbox s recipient)"
  shows "chat_message_send_end s now (Some (MsgReq recipient sender encryptedMessage messageId))
           = ((200, DuplicateBody), s)
       \<and> (fst (checkChatRateLimit (chatRateBuckets s) ip now ''message'') \<longrightarrow>
            fst (chat_message_send s ip now (Some (MsgReq recipient sender encryptedMessage messageId)))
              = (200, DuplicateBody)
          \<and> chatMessageStore (snd (chat_message_send s ip now
                (Some (MsgReq recipient sender encryptedMessage messageId)))) = chatMessageStore s
          \<and> totals (snd (chat_message_send s ip now
                (Some (MsgReq recipient sender encryptedMessage messageId)))) = totals s
          \<and> sockets (snd (chat_message_send s ip now
                (Some (MsgReq recipient sender encryptedMessage messageId)))) = sockets s)"
proof -
  let ?req = "Some (MsgReq recipient sender encryptedMessage messageId)"
  have cb: "chat_message_send_end s now ?req = ((200, DuplicateBody), s)"
    using wf dup by (rule send_end_duplicate)
  have full: "fst (chat_message_send s ip now ?req) = (200, DuplicateBody)
          \<and> chatMessageStore (snd (chat_message_send s ip now ?req)) = chatMessageStore s
          \<and> totals (snd (chat_message_send s ip now ?req)) = totals s
          \<and> sockets (snd (chat_message_send s ip now ?req)) = sockets s"
    if ok: "fst (checkChatRateLimit (chatRateBuckets s) ip now ''message'')"
  proof -
    let ?s1 = "s\<lparr>chatRateBuckets := snd (checkChatRateLimit (chatRateBuckets s) ip now ''message'')\<rparr>"
    have "messageId \<in> msg_id ` set (mailbox ?s1 recipient)"
      using dup by (simp add: mailbox_def)
    with wf have "chat_message_send_end ?s1 now ?req = ((200, DuplicateBody), ?s1)"
      by (intro send_end_duplicate)
    with ok have "chat_message_send s ip now ?req = ((200, DuplicateBody), ?s1)"
      by (simp add: chat_message_send_def split_beta)
    then show ?thesis by simp
  qed
  from cb full show ?thesis by blast
qed

lemma send_admitted:
  assumes "fst (checkChatRateLimit (chatRateBuckets s) ip now ''message'')"
  shows "chat_message_send s ip now parsed
       = chat_message_send_end
           (s\<lparr>chatRateBuckets := snd (checkChatRateLimit (chatRateBuckets s) ip now ''message'')\<rparr>)
           now parsed"
  using assms by (simp add: chat_message_send_def split_beta)

lemma mailbox_buckets [simp]:
  "mailbox (s\<lparr>chatRateBuckets := b\<rparr>) fp = mailbox s fp"
  by (simp add: mailbox_def)

lemma send_new_admitted:
  assumes "recipient \<noteq> []" and "encryptedMessage \<noteq> []" and "messageId \<noteq> []"
    and "messageId \<notin> msg_id ` set (mailbox s recipient)"
    and "fst (checkChatRateLimit (chatRateBuckets s) ip now ''message'')"
  shows "fst (chat_message_send s ip now (Some (MsgReq recipient sender encryptedMessage messageId)))
           = (201, SuccessBody)
       \<and> chatMessageStore (snd (chat_message_send s ip now
             (Some (MsgReq recipient sender encryptedMessage messageId))))
           = chatMessageStore (snd (chat_message_send_end s now
             (Some (MsgReq recipient sender encryptedMessage messageId))))"
proof -
  let ?s = "s\<lparr>chatRateBuckets := snd (checkChatRateLimit (chatRateBuckets s) ip now ''message'')\<rparr>"
  have new: "messageId \<notin> msg_id ` set (mailbox ?s recipient)"
    using assms(4) by simp
  show ?thesis
    unfolding send_admitted [OF assms(5)]
    using send_end_new [OF assms(1-3) new, of now sender] send_end_new [OF assms(1-4), of now sender]
    by simp
qed

lemma send_duplicate_admitted:
  assumes "recipient \<noteq> []" and "encryptedMessage \<noteq> []" and "messageId \<noteq> []"
    and "messageId \<in> msg_id ` set (mailbox s recipient)"
    and "fst (checkChatRateLimit (chatRateBuckets s) ip now ''message'')"
  shows "fst (chat_message_send s ip now (Some (MsgReq recipient sender encryptedMessage messageId)))
           = (200, DuplicateBody)
       \<and> chatMessageStore (snd (chat_message_send s ip now
             (Some (MsgReq recipient sender encryptedMessage messageId)))) = chatMessageStore s"
proof -
  let ?s = "s\<lparr>chatRateBuckets := snd (checkChatRateLimit (chatRateBuckets s) ip now ''message'')\<rparr>"
  have old: "messageId \<in> msg_id ` set (mailbox ?s recipient)"
    using assms(4) by simp
  show ?thesis
    unfolding send_admitted [OF assms(5)] send_end_duplicate [OF assms(1-3) old]
    by simp
qed

text \<open>
  Claim C9. A message with the same id, new to the mailboxes of two different
  recipients, is stored in both: each enqueue answers 201 and appends the message (its
  id, sender, payload and time) to the mailbox of its own recipient, and no other
  mailbox changes. After that, an enqueue with that id to either recipient is a
  duplicate: it answers 200 with \<open>duplicate: true\<close> and changes nothing. The whole requests
  answer and store the same when the rate limiter admits them.
\<close>

theorem dedup_is_per_recipient:
  assumes wf: "to1 \<noteq> []" "to2 \<noteq> []" "messageId \<noteq> []"
      "payload1 \<noteq> []" "payload2 \<noteq> []" "payload3 \<noteq> []"
    and different: "to1 \<noteq> to2"
    and new1: "messageId \<notin> msg_id ` set (mailbox s to1)"
    and new2: "messageId \<notin> msg_id ` set (mailbox s to2)"
    and s1: "s1 = snd (chat_message_send_end s t1 (Some (MsgReq to1 sender1 payload1 messageId)))"
    and s2: "s2 = snd (chat_message_send_end s1 t2 (Some (MsgReq to2 sender2 payload2 messageId)))"
  shows "fst (chat_message_send_end s t1 (Some (MsgReq to1 sender1 payload1 messageId)))
           = (201, SuccessBody)
       \<and> fst (chat_message_send_end s1 t2 (Some (MsgReq to2 sender2 payload2 messageId)))
           = (201, SuccessBody)
       \<and> chatMessageStore s1
           = (chatMessageStore s)(to1 \<mapsto> mailbox s to1 @
               [\<lparr>msg_id = messageId, msg_from = (if sender1 = [] then ''unknown'' else sender1),
                 msg_payload = payload1, msg_timestamp = t1\<rparr>])
       \<and> chatMessageStore s2
           = (chatMessageStore s)
               (to1 \<mapsto> mailbox s to1 @
                  [\<lparr>msg_id = messageId, msg_from = (if sender1 = [] then ''unknown'' else sender1),
                    msg_payload = payload1, msg_timestamp = t1\<rparr>],
                to2 \<mapsto> mailbox s to2 @
                  [\<lparr>msg_id = messageId, msg_from = (if sender2 = [] then ''unknown'' else sender2),
                    msg_payload = payload2, msg_timestamp = t2\<rparr>])
       \<and> chat_message_send_end s2 t3 (Some (MsgReq to1 sender3 payload3 messageId))
           = ((200, DuplicateBody), s2)
       \<and> chat_message_send_end s2 t3 (Some (MsgReq to2 sender3 payload3 messageId))
           = ((200, DuplicateBody), s2)
       \<and> (fst (checkChatRateLimit (chatRateBuckets s) ip1 t1 ''message'') \<longrightarrow>
            fst (chat_message_send s ip1 t1 (Some (MsgReq to1 sender1 payload1 messageId)))
              = (201, SuccessBody)
          \<and> chatMessageStore (snd (chat_message_send s ip1 t1
                (Some (MsgReq to1 sender1 payload1 messageId)))) = chatMessageStore s1)
       \<and> (fst (checkChatRateLimit (chatRateBuckets s1) ip2 t2 ''message'') \<longrightarrow>
            fst (chat_message_send s1 ip2 t2 (Some (MsgReq to2 sender2 payload2 messageId)))
              = (201, SuccessBody)
          \<and> chatMessageStore (snd (chat_message_send s1 ip2 t2
                (Some (MsgReq to2 sender2 payload2 messageId)))) = chatMessageStore s2)
       \<and> (fst (checkChatRateLimit (chatRateBuckets s2) ip3 t3 ''message'') \<longrightarrow>
            fst (chat_message_send s2 ip3 t3 (Some (MsgReq to1 sender3 payload3 messageId)))
              = (200, DuplicateBody)
          \<and> chatMessageStore (snd (chat_message_send s2 ip3 t3
                (Some (MsgReq to1 sender3 payload3 messageId)))) = chatMessageStore s2)"
proof -
  let ?m1 = "\<lparr>msg_id = messageId, msg_from = (if sender1 = [] then ''unknown'' else sender1),
                 msg_payload = payload1, msg_timestamp = t1\<rparr>"
  let ?m2 = "\<lparr>msg_id = messageId, msg_from = (if sender2 = [] then ''unknown'' else sender2),
                 msg_payload = payload2, msg_timestamp = t2\<rparr>"
  let ?req1 = "Some (MsgReq to1 sender1 payload1 messageId)"
  let ?req2 = "Some (MsgReq to2 sender2 payload2 messageId)"
  from send_end_new [OF wf(1) wf(4) wf(3) new1, of t1 sender1]
  have r1: "fst (chat_message_send_end s t1 ?req1) = (201, SuccessBody)"
    and st1: "chatMessageStore s1 = (chatMessageStore s)(to1 \<mapsto> mailbox s to1 @ [?m1])"
    unfolding s1 by simp_all
  have box1: "mailbox s1 to1 = mailbox s to1 @ [?m1]" "mailbox s1 to2 = mailbox s to2"
    using st1 different by (simp_all add: mailbox_def)
  then have new2': "messageId \<notin> msg_id ` set (mailbox s1 to2)"
    using new2 by simp
  from send_end_new [OF wf(2) wf(5) wf(3) new2', of t2 sender2]
  have r2: "fst (chat_message_send_end s1 t2 ?req2) = (201, SuccessBody)"
    and st2': "chatMessageStore s2 = (chatMessageStore s1)(to2 \<mapsto> mailbox s1 to2 @ [?m2])"
    unfolding s2 by simp_all
  have st2: "chatMessageStore s2
      = (chatMessageStore s)(to1 \<mapsto> mailbox s to1 @ [?m1], to2 \<mapsto> mailbox s to2 @ [?m2])"
    unfolding st2' st1 box1 by (rule refl)
  have box2: "mailbox s2 to1 = mailbox s to1 @ [?m1]" "mailbox s2 to2 = mailbox s to2 @ [?m2]"
    using st2 different by (simp_all add: mailbox_def)
  have d1: "chat_message_send_end s2 t3 (Some (MsgReq to1 sender3 payload3 messageId))
           = ((200, DuplicateBody), s2)"
    using wf box2 by (intro send_end_duplicate) simp_all
  have d2: "chat_message_send_end s2 t3 (Some (MsgReq to2 sender3 payload3 messageId))
           = ((200, DuplicateBody), s2)"
    using wf box2 by (intro send_end_duplicate) simp_all
  have in1: "messageId \<in> msg_id ` set (mailbox s2 to1)"
    unfolding box2 by simp
  have w1: "fst (checkChatRateLimit (chatRateBuckets s) ip1 t1 ''message'') \<longrightarrow>
            fst (chat_message_send s ip1 t1 ?req1) = (201, SuccessBody)
          \<and> chatMessageStore (snd (chat_message_send s ip1 t1 ?req1)) = chatMessageStore s1"
    unfolding s1 by (intro impI send_new_admitted wf new1)
  have w2: "fst (checkChatRateLimit (chatRateBuckets s1) ip2 t2 ''message'') \<longrightarrow>
            fst (chat_message_send s1 ip2 t2 ?req2) = (201, SuccessBody)
          \<and> chatMessageStore (snd (chat_message_send s1 ip2 t2 ?req2)) = chatMessageStore s2"
    unfolding s2 by (intro impI send_new_admitted wf new2')
  have w3: "fst (checkChatRateLimit (chatRateBuckets s2) ip3 t3 ''message'') \<longrightarrow>
            fst (chat_message_send s2 ip3 t3 (Some (MsgReq to1 sender3 payload3 messageId)))
              = (200, DuplicateBody)
          \<and> chatMessageStore (snd (chat_message_send s2 ip3 t3
                (Some (MsgReq to1 sender3 payload3 messageId)))) = chatMessageStore s2"
    by (intro impI send_duplicate_admitted wf in1)
  show ?thesis
    by (intro conjI) (rule r1 r2 st1 st2 d1 d2 w1 w2 w3)+
qed

lemma ack_messages_mailbox:
  "mailbox (ack_messages s fingerprint ids) fp
   = (if fp = fingerprint then filter (\<lambda>m. JStr (msg_id m) \<notin> set ids) (mailbox s fingerprint)
      else mailbox s fp)"
  by (cases "chatMessageStore s fingerprint") (simp_all add: ack_messages_def mailbox_def Let_def)

lemma ack_messages_store:
  "chatMessageStore (ack_messages s fingerprint ids) fp
   = (if fp \<noteq> fingerprint then chatMessageStore s fp
      else if filter (\<lambda>m. JStr (msg_id m) \<notin> set ids) (mailbox s fingerprint) = [] then None
      else Some (filter (\<lambda>m. JStr (msg_id m) \<notin> set ids) (mailbox s fingerprint)))"
  by (cases "chatMessageStore s fingerprint") (simp_all add: ack_messages_def mailbox_def Let_def)

lemma ack_messages_frame:
  "ack_messages s fingerprint ids = s\<lparr>chatMessageStore := chatMessageStore (ack_messages s fingerprint ids)\<rparr>"
  by (cases "chatMessageStore s fingerprint") (simp_all add: ack_messages_def Let_def)

text \<open>
  Claim C7. POST /chat/messages/ack with a fingerprint and an array of ids answers 200;
  the mailbox of the fingerprint keeps exactly the messages whose id is not in the
  array, in their order; its key is absent afterwards exactly when nothing is left;
  every other mailbox and every other part of the state is unchanged; nothing changes
  when the fingerprint has no mailbox; and an \<open>ack\<close> frame on the chat socket of the
  fingerprint does the same removal.
\<close>

theorem ack_removes_exactly_listed:
  assumes fp: "fingerprint \<noteq> []"
    and s': "s' = snd (chat_messages_ack s (Some (AckReq fingerprint (Some ids))))"
  shows "fst (chat_messages_ack s (Some (AckReq fingerprint (Some ids)))) = (200, SuccessBody)
       \<and> mailbox s' fingerprint = filter (\<lambda>m. JStr (msg_id m) \<notin> set ids) (mailbox s fingerprint)
       \<and> subseq (mailbox s' fingerprint) (mailbox s fingerprint)
       \<and> (\<forall>m. m \<in> set (mailbox s' fingerprint)
               \<longleftrightarrow> m \<in> set (mailbox s fingerprint) \<and> JStr (msg_id m) \<notin> set ids)
       \<and> (chatMessageStore s' fingerprint = None \<longleftrightarrow> mailbox s' fingerprint = [])
       \<and> (\<forall>other. other \<noteq> fingerprint \<longrightarrow> chatMessageStore s' other = chatMessageStore s other)
       \<and> s' = s\<lparr>chatMessageStore := chatMessageStore s'\<rparr>
       \<and> (chatMessageStore s fingerprint = None \<longrightarrow> s' = s)
       \<and> (\<forall>parse text v. parse text = Some v \<and> v \<noteq> JNull
             \<and> js_get v ''type'' = Some (JStr ''ack'') \<and> js_get v ''messageIds'' = Some (JArr ids)
             \<longrightarrow> chat_socket_message parse s fingerprint text = s')"
proof -
  have run: "chat_messages_ack s (Some (AckReq fingerprint (Some ids)))
             = ((200, SuccessBody), ack_messages s fingerprint ids)"
    using fp by (simp add: chat_messages_ack_def)
  then have st: "s' = ack_messages s fingerprint ids" using s' by simp
  from run have ok: "fst (chat_messages_ack s (Some (AckReq fingerprint (Some ids)))) = (200, SuccessBody)"
    by simp
  have box: "mailbox s' fingerprint = filter (\<lambda>m. JStr (msg_id m) \<notin> set ids) (mailbox s fingerprint)"
    unfolding st by (simp add: ack_messages_mailbox)
  have sub: "subseq (mailbox s' fingerprint) (mailbox s fingerprint)"
    unfolding box by (rule subseq_filter_left)
  have mem: "m \<in> set (mailbox s' fingerprint)
               \<longleftrightarrow> m \<in> set (mailbox s fingerprint) \<and> JStr (msg_id m) \<notin> set ids" for m
    unfolding box by auto
  have key: "chatMessageStore s' fingerprint = None \<longleftrightarrow> mailbox s' fingerprint = []"
    unfolding box unfolding st by (simp add: ack_messages_store)
  have others: "chatMessageStore s' other = chatMessageStore s other" if "other \<noteq> fingerprint" for other
    unfolding st using that by (simp add: ack_messages_store)
  have frame: "s' = s\<lparr>chatMessageStore := chatMessageStore s'\<rparr>"
    unfolding st by (rule ack_messages_frame)
  have absent: "s' = s" if "chatMessageStore s fingerprint = None"
    unfolding st using that by (simp add: ack_messages_def)
  have sock': "\<forall>parse text v. parse text = Some v \<and> v \<noteq> JNull
             \<and> js_get v ''type'' = Some (JStr ''ack'') \<and> js_get v ''messageIds'' = Some (JArr ids)
             \<longrightarrow> chat_socket_message parse s fingerprint text = s'"
  proof (intro allI impI)
    fix parse :: "string \<Rightarrow> json option" and received v
    assume "parse received = Some v \<and> v \<noteq> JNull
             \<and> js_get v ''type'' = Some (JStr ''ack'') \<and> js_get v ''messageIds'' = Some (JArr ids)"
    then show "chat_socket_message parse s fingerprint received = s'"
      unfolding st by (cases v) (simp_all add: chat_socket_message_def)
  qed
  from mem have mem': "\<forall>m. m \<in> set (mailbox s' fingerprint)
               \<longleftrightarrow> m \<in> set (mailbox s fingerprint) \<and> JStr (msg_id m) \<notin> set ids"
    by (rule allI)
  from others have others': "\<forall>other. other \<noteq> fingerprint \<longrightarrow> chatMessageStore s' other = chatMessageStore s other"
    by simp
  from absent have absent': "chatMessageStore s fingerprint = None \<longrightarrow> s' = s"
    by (rule impI)
  show ?thesis
    by (intro conjI) (rule ok box sub mem' key others' frame absent' sock')+
qed

lemma one_queued_eval:
  "chatMessageStore one_queued
     = [''fpB'' \<mapsto> [\<lparr>msg_id = ''m1'', msg_from = ''fpA'', msg_payload = ''E1'', msg_timestamp = 100\<rparr>]]"
  "chatRateBuckets one_queued
     = [''10.0.0.1'' \<mapsto> \<lparr>windowStart = 100, inviteCount = 0, messageCount = 1\<rparr>]"
  "totals one_queued ''chat_messages_sent'' = 1"
  by (simp_all add: one_queued_def handler_defs eval_defs)

text \<open>
  The theorem for a repeated POST of the message \<open>m1\<close> to \<open>fpB\<close>.
\<close>

theorem duplicate_enqueue_is_noop_witness:
  "chat_message_send_end one_queued 200 (Some (MsgReq ''fpB'' ''fpA'' ''E1'' ''m1''))
     = ((200, DuplicateBody), one_queued)
   \<and> fst (chat_message_send one_queued ''10.0.0.1'' 200 (Some (MsgReq ''fpB'' ''fpA'' ''E1'' ''m1'')))
     = (200, DuplicateBody)
   \<and> mailbox (snd (chat_message_send one_queued ''10.0.0.1'' 200
        (Some (MsgReq ''fpB'' ''fpA'' ''E1'' ''m1'')))) ''fpB''
     = [\<lparr>msg_id = ''m1'', msg_from = ''fpA'', msg_payload = ''E1'', msg_timestamp = 100\<rparr>]
   \<and> totals (snd (chat_message_send one_queued ''10.0.0.1'' 200
        (Some (MsgReq ''fpB'' ''fpA'' ''E1'' ''m1'')))) ''chat_messages_sent'' = 1"
proof -
  have wf: "''fpB'' \<noteq> []" "''E1'' \<noteq> []" "''m1'' \<noteq> []" by simp_all
  have dup: "''m1'' \<in> msg_id ` set (mailbox one_queued ''fpB'')"
    by (simp add: mailbox_def one_queued_eval)
  have ok: "fst (checkChatRateLimit (chatRateBuckets one_queued) ''10.0.0.1'' 200 ''message'')"
    by (simp add: one_queued_eval eval_defs)
  from duplicate_enqueue_is_noop [OF wf dup, of 200 "''fpA''" "''10.0.0.1''"] ok
  show ?thesis by (simp add: mailbox_def one_queued_eval)
qed

text \<open>
  The theorem for the message id \<open>m1\<close> sent to \<open>fpB\<close> and then, with another sender and
  payload, to \<open>fpC\<close>.
\<close>

theorem dedup_is_per_recipient_witness:
  "fst (chat_message_send_end initial 1 (Some (MsgReq ''fpB'' ''fpA'' ''E1'' ''m1''))) = (201, SuccessBody)
   \<and> fst (chat_message_send_end
            (snd (chat_message_send_end initial 1 (Some (MsgReq ''fpB'' ''fpA'' ''E1'' ''m1''))))
            2 (Some (MsgReq ''fpC'' [] ''E2'' ''m1''))) = (201, SuccessBody)
   \<and> chatMessageStore
        (snd (chat_message_send_end
            (snd (chat_message_send_end initial 1 (Some (MsgReq ''fpB'' ''fpA'' ''E1'' ''m1''))))
            2 (Some (MsgReq ''fpC'' [] ''E2'' ''m1''))))
      = [''fpB'' \<mapsto> [\<lparr>msg_id = ''m1'', msg_from = ''fpA'', msg_payload = ''E1'', msg_timestamp = 1\<rparr>],
         ''fpC'' \<mapsto> [\<lparr>msg_id = ''m1'', msg_from = ''unknown'', msg_payload = ''E2'', msg_timestamp = 2\<rparr>]]
   \<and> fst (chat_message_send_end
        (snd (chat_message_send_end
            (snd (chat_message_send_end initial 1 (Some (MsgReq ''fpB'' ''fpA'' ''E1'' ''m1''))))
            2 (Some (MsgReq ''fpC'' [] ''E2'' ''m1''))))
        3 (Some (MsgReq ''fpB'' ''fpA'' ''E1'' ''m1''))) = (200, DuplicateBody)"
proof -
  have wf: "''fpB'' \<noteq> []" "''fpC'' \<noteq> []" "''m1'' \<noteq> []" "''E1'' \<noteq> []" "''E2'' \<noteq> []" "''E1'' \<noteq> []"
    by simp_all
  have different: "''fpB'' \<noteq> ''fpC''" by simp
  have new: "''m1'' \<notin> msg_id ` set (mailbox initial ''fpB'')" "''m1'' \<notin> msg_id ` set (mailbox initial ''fpC'')"
    by (simp_all add: mailbox_def initial_def)
  note t = dedup_is_per_recipient [OF wf different new refl refl, of 1 "''fpA''" 2 "[]" 3 "''fpA''"]
  note t2 = t [THEN conjunct2]
  note t4 = t2 [THEN conjunct2, THEN conjunct2]
  from t have a: "fst (chat_message_send_end initial 1 (Some (MsgReq ''fpB'' ''fpA'' ''E1'' ''m1'')))
      = (201, SuccessBody)"
    by (rule conjunct1)
  from t2 have b: "fst (chat_message_send_end
            (snd (chat_message_send_end initial 1 (Some (MsgReq ''fpB'' ''fpA'' ''E1'' ''m1''))))
            2 (Some (MsgReq ''fpC'' [] ''E2'' ''m1''))) = (201, SuccessBody)"
    by (rule conjunct1)
  from t4 have "chatMessageStore
        (snd (chat_message_send_end
            (snd (chat_message_send_end initial 1 (Some (MsgReq ''fpB'' ''fpA'' ''E1'' ''m1''))))
            2 (Some (MsgReq ''fpC'' [] ''E2'' ''m1''))))
      = (chatMessageStore initial)
          (''fpB'' \<mapsto> mailbox initial ''fpB'' @
             [\<lparr>msg_id = ''m1'', msg_from = (if ''fpA'' = [] then ''unknown'' else ''fpA''),
               msg_payload = ''E1'', msg_timestamp = 1\<rparr>],
           ''fpC'' \<mapsto> mailbox initial ''fpC'' @
             [\<lparr>msg_id = ''m1'', msg_from = (if ([] :: string) = [] then ''unknown'' else []),
               msg_payload = ''E2'', msg_timestamp = 2\<rparr>])"
    by (rule conjunct1)
  then have c: "chatMessageStore
        (snd (chat_message_send_end
            (snd (chat_message_send_end initial 1 (Some (MsgReq ''fpB'' ''fpA'' ''E1'' ''m1''))))
            2 (Some (MsgReq ''fpC'' [] ''E2'' ''m1''))))
      = [''fpB'' \<mapsto> [\<lparr>msg_id = ''m1'', msg_from = ''fpA'', msg_payload = ''E1'', msg_timestamp = 1\<rparr>],
         ''fpC'' \<mapsto> [\<lparr>msg_id = ''m1'', msg_from = ''unknown'', msg_payload = ''E2'', msg_timestamp = 2\<rparr>]]"
    by (simp add: mailbox_def initial_def)
  from t4 [THEN conjunct2, THEN conjunct1]
  have d: "fst (chat_message_send_end
        (snd (chat_message_send_end
            (snd (chat_message_send_end initial 1 (Some (MsgReq ''fpB'' ''fpA'' ''E1'' ''m1''))))
            2 (Some (MsgReq ''fpC'' [] ''E2'' ''m1''))))
        3 (Some (MsgReq ''fpB'' ''fpA'' ''E1'' ''m1''))) = (200, DuplicateBody)"
    by simp
  from a b c d show ?thesis by (intro conjI)
qed

text \<open>
  The theorem for a mailbox of three messages, two of them acknowledged, and for a
  fingerprint without a mailbox.
\<close>

theorem ack_removes_exactly_listed_witness:
  "fst (chat_messages_ack three_queued (Some (AckReq ''fpB'' (Some [JStr ''m1'', JStr ''m3'', JNum 7]))))
     = (200, SuccessBody)
   \<and> chatMessageStore
       (snd (chat_messages_ack three_queued (Some (AckReq ''fpB'' (Some [JStr ''m1'', JStr ''m3'', JNum 7])))))
     = [''fpB'' \<mapsto> [\<lparr>msg_id = ''m2'', msg_from = ''fpA'', msg_payload = ''E2'', msg_timestamp = 2\<rparr>],
        ''fpC'' \<mapsto> [\<lparr>msg_id = ''m1'', msg_from = ''fpA'', msg_payload = ''E4'', msg_timestamp = 4\<rparr>]]
   \<and> chat_messages_ack three_queued (Some (AckReq ''fpD'' (Some [JStr ''m1''])))
     = ((200, SuccessBody), three_queued)"
proof -
  have fp: "''fpB'' \<noteq> []" "''fpD'' \<noteq> []" by simp_all
  let ?ids = "[JStr ''m1'', JStr ''m3'', JNum 7]"
  let ?s' = "snd (chat_messages_ack three_queued (Some (AckReq ''fpB'' (Some ?ids))))"
  note t = ack_removes_exactly_listed [OF fp(1) refl, of three_queued ?ids]
  from t have ok: "fst (chat_messages_ack three_queued (Some (AckReq ''fpB'' (Some ?ids)))) = (200, SuccessBody)"
    by (rule conjunct1)
  note t4 = t [THEN conjunct2, THEN conjunct2, THEN conjunct2, THEN conjunct2]
  from t have box: "mailbox ?s' ''fpB'' = filter (\<lambda>m. JStr (msg_id m) \<notin> set ?ids) (mailbox three_queued ''fpB'')"
    by (rule conjunct2 [THEN conjunct1])
  from t4 have key: "chatMessageStore ?s' ''fpB'' = None \<longleftrightarrow> mailbox ?s' ''fpB'' = []"
    by (rule conjunct1)
  from t4 have others: "\<forall>other. other \<noteq> ''fpB'' \<longrightarrow> chatMessageStore ?s' other = chatMessageStore three_queued other"
    by (rule conjunct2 [THEN conjunct1])
  from box have box': "mailbox ?s' ''fpB''
      = [\<lparr>msg_id = ''m2'', msg_from = ''fpA'', msg_payload = ''E2'', msg_timestamp = 2\<rparr>]"
    by (simp add: mailbox_def three_queued_def initial_def)
  with key have some: "chatMessageStore ?s' ''fpB''
      = Some [\<lparr>msg_id = ''m2'', msg_from = ''fpA'', msg_payload = ''E2'', msg_timestamp = 2\<rparr>]"
    by (cases "chatMessageStore ?s' ''fpB''") (simp_all add: mailbox_def)
  have store: "chatMessageStore ?s'
     = [''fpB'' \<mapsto> [\<lparr>msg_id = ''m2'', msg_from = ''fpA'', msg_payload = ''E2'', msg_timestamp = 2\<rparr>],
        ''fpC'' \<mapsto> [\<lparr>msg_id = ''m1'', msg_from = ''fpA'', msg_payload = ''E4'', msg_timestamp = 4\<rparr>]]"
  proof (rule ext)
    fix other
    show "chatMessageStore ?s' other
     = [''fpB'' \<mapsto> [\<lparr>msg_id = ''m2'', msg_from = ''fpA'', msg_payload = ''E2'', msg_timestamp = 2\<rparr>],
        ''fpC'' \<mapsto> [\<lparr>msg_id = ''m1'', msg_from = ''fpA'', msg_payload = ''E4'', msg_timestamp = 4\<rparr>]] other"
      using some others [rule_format, of other]
      by (cases "other = ''fpB''") (simp_all add: three_queued_def initial_def)
  qed
  note u = ack_removes_exactly_listed [OF fp(2) refl, of three_queued "[JStr ''m1'']"]
  note u7 = u [THEN conjunct2, THEN conjunct2, THEN conjunct2, THEN conjunct2, THEN conjunct2,
      THEN conjunct2, THEN conjunct2, THEN conjunct1]
  have "fst (chat_messages_ack three_queued (Some (AckReq ''fpD'' (Some [JStr ''m1'']))))  = (200, SuccessBody)"
    and "chatMessageStore three_queued ''fpD'' = None \<longrightarrow>
         snd (chat_messages_ack three_queued (Some (AckReq ''fpD'' (Some [JStr ''m1''])))) = three_queued"
    using u [THEN conjunct1] u7 by blast+
  then have absent: "chat_messages_ack three_queued (Some (AckReq ''fpD'' (Some [JStr ''m1''])))
     = ((200, SuccessBody), three_queued)"
    by (simp add: three_queued_def initial_def prod_eq_iff)
  from ok store absent show ?thesis by simp
qed

section \<open>Rooms\<close>

lemma burned_step:
  assumes "roomId \<in> burnedRooms s" and "rooms s roomId = None"
  shows "roomId \<in> burnedRooms (snd (step parse s e)) \<and> rooms (snd (step parse s e)) roomId = None"
  using assms
  by (cases e) (auto simp: handler_defs Let_def split_beta split: handler_splits)

lemma burned_run:
  assumes "roomId \<in> burnedRooms s" and "rooms s roomId = None"
  shows "roomId \<in> burnedRooms (snd (run parse s es)) \<and> rooms (snd (run parse s es)) roomId = None"
  using assms
proof (induction es arbitrary: s)
  case Nil
  then show ?case by simp
next
  case (Cons e es)
  from burned_step [OF Cons.prems]
  have "roomId \<in> burnedRooms (snd (step parse s e))" "rooms (snd (step parse s e)) roomId = None"
    by simp_all
  from Cons.IH [OF this] show ?case by (simp add: split_beta)
qed

lemma burn_room_message:
  assumes "is_burn_frame parse received roomId"
  shows "room_message parse s ws roomId (Text received)
         = (case rooms s roomId of
              Some r \<Rightarrow>
                s\<lparr>burnedRooms := insert roomId (burnedRooms s),
                  sockets := (\<lambda>client.
                     if client \<in> clients r
                     then ws_close (if readyState (sockets s client) = 1
                                    then ws_send (RoomDestroyed roomId) (sockets s client)
                                    else sockets s client)
                     else sockets s client),
                  rooms := (rooms s)(roomId := None)\<rparr>
            | None \<Rightarrow>
                s\<lparr>burnedRooms := insert roomId (burnedRooms s),
                  sockets := (sockets s)(ws := ws_close (ws_send (RoomDestroyed roomId) (sockets s ws)))\<rparr>)"
  using assms by (simp add: room_message_def Let_def split: option.splits cong: if_cong)

lemma closed_not_open: "readyState (ws_close sk) \<noteq> 1" "readyState (ws_close sk) \<noteq> Suc 0"
  by (simp_all add: ws_close_def)

lemma outbox_close_send:
  "outbox (ws_close sk) = outbox sk"
  "outbox (ws_send f sk) = (if readyState sk = 1 then outbox sk @ [f] else outbox sk)"
  "readyState (ws_send f sk) = readyState sk"
  by (simp_all add: ws_close_def ws_send_def)

text \<open>
  Claim C5, as amended. After the burn frame of a room, the room id is in the burned set
  and the registry has no room under it, and this stays so through any later events:
  no socket is a member of the room again. A handshake with a burned room id and no
  \<open>chatFingerprint\<close> is sent \<open>roomDestroyed\<close> and closed, and changes nothing else. At
  burn time every member of the room is closed, every member whose socket is open is
  sent \<open>roomDestroyed\<close> first (the sender included, when it is a member), no other socket
  is touched, and the room is removed; a sender whose room is already gone is closed,
  and sent \<open>roomDestroyed\<close> first when its socket is open.
\<close>

theorem burn_is_final:
  assumes burn: "is_burn_frame parse received roomId" and named: "roomId \<noteq> []"
    and s': "s' = room_message parse s ws roomId (Text received)"
  shows "roomId \<in> burnedRooms s' \<and> rooms s' roomId = None
       \<and> (\<forall>es. roomId \<in> burnedRooms (snd (run parse s' es))
               \<and> rooms (snd (run parse s' es)) roomId = None)
       \<and> (\<forall>s2 ws2. roomId \<in> burnedRooms s2 \<longrightarrow>
             on_connection s2 ws2 roomId []
             = s2\<lparr>sockets := (sockets s2)(ws2 :=
                     ws_close (ws_send (RoomDestroyed roomId) (sockets s2 ws2)))\<rparr>)
       \<and> (\<forall>r client. rooms s roomId = Some r \<and> client \<in> clients r \<longrightarrow>
             readyState (sockets s' client) \<noteq> 1
             \<and> outbox (sockets s' client)
                 = (if readyState (sockets s client) = 1
                    then outbox (sockets s client) @ [RoomDestroyed roomId]
                    else outbox (sockets s client)))
       \<and> (\<forall>r client. rooms s roomId = Some r \<and> client \<notin> clients r \<longrightarrow>
             sockets s' client = sockets s client)
       \<and> (rooms s roomId = None \<longrightarrow>
             readyState (sockets s' ws) \<noteq> 1
             \<and> outbox (sockets s' ws)
                 = (if readyState (sockets s ws) = 1
                    then outbox (sockets s ws) @ [RoomDestroyed roomId]
                    else outbox (sockets s ws)))"
proof -
  note eq = burn_room_message [OF burn, of s ws, folded s']
  have now: "roomId \<in> burnedRooms s' \<and> rooms s' roomId = None"
    unfolding eq by (simp split: option.splits)
  then have forever: "\<forall>es. roomId \<in> burnedRooms (snd (run parse s' es))
               \<and> rooms (snd (run parse s' es)) roomId = None"
    by (intro allI burned_run) simp_all
  have join: "\<forall>s2 ws2. roomId \<in> burnedRooms s2 \<longrightarrow>
             on_connection s2 ws2 roomId []
             = s2\<lparr>sockets := (sockets s2)(ws2 :=
                     ws_close (ws_send (RoomDestroyed roomId) (sockets s2 ws2)))\<rparr>"
    using named by (simp add: on_connection_def)
  have members: "\<forall>r client. rooms s roomId = Some r \<and> client \<in> clients r \<longrightarrow>
             readyState (sockets s' client) \<noteq> 1
             \<and> outbox (sockets s' client)
                 = (if readyState (sockets s client) = 1
                    then outbox (sockets s client) @ [RoomDestroyed roomId]
                    else outbox (sockets s client))"
    unfolding eq by (simp add: closed_not_open outbox_close_send)
  have outsiders: "\<forall>r client. rooms s roomId = Some r \<and> client \<notin> clients r \<longrightarrow>
             sockets s' client = sockets s client"
    unfolding eq by simp
  have alone: "rooms s roomId = None \<longrightarrow>
             readyState (sockets s' ws) \<noteq> 1
             \<and> outbox (sockets s' ws)
                 = (if readyState (sockets s ws) = 1
                    then outbox (sockets s ws) @ [RoomDestroyed roomId]
                    else outbox (sockets s ws))"
    unfolding eq by (simp add: closed_not_open outbox_close_send)
  show ?thesis
    by (intro conjI) (rule now [THEN conjunct1] now [THEN conjunct2] forever join members outsiders alone)+
qed

lemma burn_frame_shape: "is_burn_frame parse received roomId = burn_shape (parse received) roomId"
proof (cases "parse received")
  case None
  then show ?thesis by (simp add: is_burn_frame_def burn_shape_def)
next
  case (Some v)
  then show ?thesis by (cases v) (auto simp: is_burn_frame_def burn_shape_def)
qed

text \<open>
  Claim C6. A text frame on a room socket runs the burn protocol exactly when it parses
  to an object with \<open>type\<close> "control", \<open>action\<close> "burnRoom" and \<open>roomId\<close> the room's own id.
  In every other case (the text does not parse, it parses to something else, or it
  names another room) the state changes in one way only: every other member of the
  room whose socket is open gets the text appended to its outbox; the sender, closed
  members and sockets outside the room get nothing, and the burned set and the
  registry stay as they were.
\<close>

theorem text_frame_burns_or_forwards:
  "(burn_shape (parse received) roomId \<longrightarrow>
      room_message parse s ws roomId (Text received)
      = (case rooms s roomId of
           Some r \<Rightarrow>
             s\<lparr>burnedRooms := insert roomId (burnedRooms s),
               sockets := (\<lambda>client.
                  if client \<in> clients r
                  then ws_close (if readyState (sockets s client) = 1
                                 then ws_send (RoomDestroyed roomId) (sockets s client)
                                 else sockets s client)
                  else sockets s client),
               rooms := (rooms s)(roomId := None)\<rparr>
         | None \<Rightarrow>
             s\<lparr>burnedRooms := insert roomId (burnedRooms s),
               sockets := (sockets s)(ws := ws_close (ws_send (RoomDestroyed roomId) (sockets s ws)))\<rparr>))
   \<and> (\<not> burn_shape (parse received) roomId \<longrightarrow>
      room_message parse s ws roomId (Text received)
      = s\<lparr>sockets := (\<lambda>client.
             if (\<exists>r. rooms s roomId = Some r \<and> client \<in> clients r) \<and> client \<noteq> ws
                \<and> readyState (sockets s client) = 1
             then (sockets s client)\<lparr>outbox := outbox (sockets s client) @ [TextFrame received]\<rparr>
             else sockets s client)\<rparr>)"
proof (intro conjI impI)
  assume "burn_shape (parse received) roomId"
  then have "is_burn_frame parse received roomId" by (simp add: burn_frame_shape)
  then show "room_message parse s ws roomId (Text received)
      = (case rooms s roomId of
           Some r \<Rightarrow>
             s\<lparr>burnedRooms := insert roomId (burnedRooms s),
               sockets := (\<lambda>client.
                  if client \<in> clients r
                  then ws_close (if readyState (sockets s client) = 1
                                 then ws_send (RoomDestroyed roomId) (sockets s client)
                                 else sockets s client)
                  else sockets s client),
               rooms := (rooms s)(roomId := None)\<rparr>
         | None \<Rightarrow>
             s\<lparr>burnedRooms := insert roomId (burnedRooms s),
               sockets := (sockets s)(ws := ws_close (ws_send (RoomDestroyed roomId) (sockets s ws)))\<rparr>)"
    by (rule burn_room_message)
next
  assume "\<not> burn_shape (parse received) roomId"
  then have no: "\<not> is_burn_frame parse received roomId" by (simp add: burn_frame_shape)
  show "room_message parse s ws roomId (Text received)
      = s\<lparr>sockets := (\<lambda>client.
             if (\<exists>r. rooms s roomId = Some r \<and> client \<in> clients r) \<and> client \<noteq> ws
                \<and> readyState (sockets s client) = 1
             then (sockets s client)\<lparr>outbox := outbox (sockets s client) @ [TextFrame received]\<rparr>
             else sockets s client)\<rparr>"
  proof (cases "rooms s roomId")
    case None
    with no show ?thesis by (simp add: room_message_def)
  next
    case (Some r)
    with no show ?thesis by (simp add: room_message_def send_each_def ws_send_def cong: if_cong)
  qed
qed

lemma two_in_r1_eval:
  "rooms two_in_r1 = [''r1'' \<mapsto> \<lparr>clients = {1, 2}, timer = None\<rparr>]"
  "burnedRooms two_in_r1 = {}"
  "sockets two_in_r1 1 = \<lparr>readyState = 1, outbox = [Presence ''r1'' 1, Presence ''r1'' 2]\<rparr>"
  "sockets two_in_r1 2 = \<lparr>readyState = 1, outbox = [Presence ''r1'' 2]\<rparr>"
  by (auto simp: two_in_r1_def handler_defs eval_defs)

text \<open>
  The theorem for a room of two sockets burned by the first.
\<close>

theorem burn_is_final_witness:
  "''r1'' \<in> burnedRooms (room_message example_parse two_in_r1 1 ''r1'' (Text ''burn r1''))
   \<and> rooms (snd (run example_parse (room_message example_parse two_in_r1 1 ''r1'' (Text ''burn r1''))
              [WsConnection 3 ''r1'' [], RoomClose 2 ''r1''])) ''r1'' = None
   \<and> outbox (sockets (room_message example_parse two_in_r1 1 ''r1'' (Text ''burn r1'')) 2)
       = [Presence ''r1'' 2, RoomDestroyed ''r1'']
   \<and> readyState (sockets (room_message example_parse two_in_r1 1 ''r1'' (Text ''burn r1'')) 2) \<noteq> 1"
proof -
  let ?s' = "room_message example_parse two_in_r1 1 ''r1'' (Text ''burn r1'')"
  have burn: "is_burn_frame example_parse ''burn r1'' ''r1''"
    by (simp add: is_burn_frame_def example_parse_def)
  have named: "''r1'' \<noteq> []" by simp
  note t = burn_is_final [OF burn named refl, of two_in_r1 1]
  from t have a: "''r1'' \<in> burnedRooms ?s'" by blast
  from t have "\<forall>es. ''r1'' \<in> burnedRooms (snd (run example_parse ?s' es))
               \<and> rooms (snd (run example_parse ?s' es)) ''r1'' = None" by blast
  then have b: "rooms (snd (run example_parse ?s' [WsConnection 3 ''r1'' [], RoomClose 2 ''r1''])) ''r1'' = None"
    by blast
  from t have "\<forall>r client. rooms two_in_r1 ''r1'' = Some r \<and> client \<in> clients r \<longrightarrow>
             readyState (sockets ?s' client) \<noteq> 1
             \<and> outbox (sockets ?s' client)
                 = (if readyState (sockets two_in_r1 client) = 1
                    then outbox (sockets two_in_r1 client) @ [RoomDestroyed ''r1'']
                    else outbox (sockets two_in_r1 client))" by blast
  from this [rule_format, of "\<lparr>clients = {1, 2}, timer = None\<rparr>" 2]
  have c: "readyState (sockets ?s' 2) \<noteq> 1"
    "outbox (sockets ?s' 2) = [Presence ''r1'' 2, RoomDestroyed ''r1'']"
    by (simp_all add: two_in_r1_eval)
  from a b c show ?thesis by simp
qed

text \<open>
  Claim C5 as stated fails: socket 2 is a member of the room when socket 1 burns it, but
  its peer has started closing, so it is not sent \<open>roomDestroyed\<close>; and the handshake of
  socket 3, which carries the burned room id and a \<open>chatFingerprint\<close>, is registered as a
  chat socket, is sent \<open>connected\<close> and stays open.
\<close>

theorem burn_skips_closing_member_counterexample:
  "map_option clients
     (rooms (snd (run example_parse initial
        [WsConnection 1 ''r1'' [], WsConnection 2 ''r1'' [], PeerClosing 2])) ''r1'')
     = Some {1, 2}
   \<and> map (\<lambda>client. outbox (sockets (snd (run example_parse initial
        [WsConnection 1 ''r1'' [], WsConnection 2 ''r1'' [], PeerClosing 2,
         RoomMessage 1 ''r1'' (Text ''burn r1''), WsConnection 3 ''r1'' ''fpB''])) client)) [1, 2, 3]
     = [[Presence ''r1'' 1, Presence ''r1'' 2, RoomDestroyed ''r1''],
        [Presence ''r1'' 2],
        [Connected ''fpB'']]
   \<and> readyState (sockets (snd (run example_parse initial
        [WsConnection 1 ''r1'' [], WsConnection 2 ''r1'' [], PeerClosing 2,
         RoomMessage 1 ''r1'' (Text ''burn r1''), WsConnection 3 ''r1'' ''fpB''])) 3) = 1"
  by (auto simp: handler_defs eval_defs is_burn_frame_def example_parse_def)

text \<open>
  The theorem for a room of two sockets: an opaque text, a burn frame that names another
  room, and the room's own burn frame.
\<close>

theorem text_frame_burns_or_forwards_witness:
  "room_message example_parse two_in_r1 1 ''r1'' (Text ''hello'')
     = two_in_r1\<lparr>sockets := (sockets two_in_r1)
         (2 := \<lparr>readyState = 1, outbox = [Presence ''r1'' 2, TextFrame ''hello'']\<rparr>)\<rparr>
   \<and> room_message example_parse two_in_r1 1 ''r1'' (Text ''burn r2'')
     = two_in_r1\<lparr>sockets := (sockets two_in_r1)
         (2 := \<lparr>readyState = 1, outbox = [Presence ''r1'' 2, TextFrame ''burn r2'']\<rparr>)\<rparr>
   \<and> burnedRooms (room_message example_parse two_in_r1 1 ''r1'' (Text ''burn r1'')) = {''r1''}
   \<and> rooms (room_message example_parse two_in_r1 1 ''r1'' (Text ''burn r1'')) ''r1'' = None"
proof -
  have n1: "\<not> burn_shape (example_parse ''hello'') ''r1''"
    and n2: "\<not> burn_shape (example_parse ''burn r2'') ''r1''"
    and y: "burn_shape (example_parse ''burn r1'') ''r1''"
    by (simp_all add: burn_shape_def example_parse_def)
  have upd: "(\<lambda>client. if (\<exists>r. rooms two_in_r1 ''r1'' = Some r \<and> client \<in> clients r) \<and> client \<noteq> 1
                \<and> readyState (sockets two_in_r1 client) = 1
             then (sockets two_in_r1 client)\<lparr>outbox := outbox (sockets two_in_r1 client) @ [TextFrame x]\<rparr>
             else sockets two_in_r1 client)
          = (sockets two_in_r1)(2 := \<lparr>readyState = 1, outbox = [Presence ''r1'' 2, TextFrame x]\<rparr>)" for x
    by (rule ext) (simp add: two_in_r1_eval)
  from text_frame_burns_or_forwards [of example_parse "''hello''" "''r1''" two_in_r1 1] n1
  have a: "room_message example_parse two_in_r1 1 ''r1'' (Text ''hello'')
     = two_in_r1\<lparr>sockets := (sockets two_in_r1)
         (2 := \<lparr>readyState = 1, outbox = [Presence ''r1'' 2, TextFrame ''hello'']\<rparr>)\<rparr>"
    by (simp only: upd) simp
  from text_frame_burns_or_forwards [of example_parse "''burn r2''" "''r1''" two_in_r1 1] n2
  have b: "room_message example_parse two_in_r1 1 ''r1'' (Text ''burn r2'')
     = two_in_r1\<lparr>sockets := (sockets two_in_r1)
         (2 := \<lparr>readyState = 1, outbox = [Presence ''r1'' 2, TextFrame ''burn r2'']\<rparr>)\<rparr>"
    by (simp only: upd) simp
  from text_frame_burns_or_forwards [of example_parse "''burn r1''" "''r1''" two_in_r1 1] y
  have c: "burnedRooms (room_message example_parse two_in_r1 1 ''r1'' (Text ''burn r1'')) = {''r1''}"
    "rooms (room_message example_parse two_in_r1 1 ''r1'' (Text ''burn r1'')) ''r1'' = None"
    by (simp_all add: two_in_r1_eval)
  from a b c show ?thesis by simp
qed

end
